theory Spec2Isabelle
  imports Main "HOL-Library.Sublist" "HOL-Library.AList"
begin

section \<open>Data model (healthData.types.ts)\<close>

text \<open>
  Modelled from the spec: \<^verbatim>\<open>HEALTH_METRICS\<close> (healthDataConstants.ts is not among the sources)
  is the closed enumeration sleep, illness, stress; these are also the keys of
  \<^verbatim>\<open>HealthMetricValueMap\<close>.

  A \<^verbatim>\<open>Date\<close> is modelled by its \<^verbatim>\<open>getTime()\<close> value, an integer number of milliseconds (an
  invalid date, whose time is NaN, is outside the model). The three data point interfaces
  share \<^verbatim>\<open>start\<close>, \<^verbatim>\<open>end\<close> and \<^verbatim>\<open>source\<close>; what a variant carries beyond them (stages,
  type, severity) is the payload.
\<close>

datatype HealthMetric = sleep | illness | stress

record 'a DataPoint =
  start :: int
  end' :: int
  source :: string
  payload :: 'a

datatype SampleType = quantity | category

record 'a HealthMetricSample =
  value' :: "'a DataPoint list"
  type' :: SampleType
  timestamp :: int

section \<open>Errors (healthDataErrors.ts)\<close>

text \<open>
  The kinds are those \<^verbatim>\<open>createTrackleError('HealthData', [...])\<close> is given.

  Modelled from the spec: \<^verbatim>\<open>createTrackleError\<close> and \<^verbatim>\<open>TrackleError.isTrackleError\<close> come from
  the app's error module, which is not among the sources. An error made by
  \<^verbatim>\<open>new HealthDataError(kind, ...)\<close> carries its kind tag and the message it was made with, and
  \<^verbatim>\<open>isTrackleError\<close> holds of exactly the errors made this way; anything else that is thrown
  is a plain \<^verbatim>\<open>Error\<close> with its message.
\<close>

datatype HealthDataErrorCode =
    PROVIDER_NOT_FOUND
  | PROVIDER_INIT_FAILED
  | PERMISSION_DENIED
  | DATA_FETCH_ERROR
  | INVALID_METRIC
  | PROVIDER_UNAVAILABLE
  | SUBSCRIPTION_ERROR
  | CLEANUP_ERROR
  | POLLING_ERROR
  | PRIORITY_ERROR

datatype thrown = HealthDataError HealthDataErrorCode string | PlainError string

fun isTrackleError :: "thrown \<Rightarrow> bool" where
  "isTrackleError (HealthDataError c m) = True"
| "isTrackleError (PlainError m) = False"

fun message :: "thrown \<Rightarrow> string" where
  "message (HealthDataError c m) = m"
| "message (PlainError m) = m"

section \<open>The overlap merge (HealthDataService.mergeDataPoints)\<close>

text \<open>The test of \<^verbatim>\<open>merged.find\<close>: the new point against a point already in the output.\<close>

definition overlaps :: "'a DataPoint \<Rightarrow> 'a DataPoint \<Rightarrow> bool" where
  "overlaps point existing \<longleftrightarrow> start point \<le> end' existing \<and> end' point \<ge> start existing"

text \<open>
  \<^verbatim>\<open>merged.find(pred)\<close> followed by \<^verbatim>\<open>merged.indexOf(overlapping)\<close>: every entry of
  \<^verbatim>\<open>merged\<close> is an object of its own (made by the \<^verbatim>\<open>map\<close> at the start), so the index
  \<^verbatim>\<open>indexOf\<close> finds is the position where \<^verbatim>\<open>find\<close> stopped: the first one that satisfies the
  test.
\<close>

primrec findIndex :: "('a \<Rightarrow> bool) \<Rightarrow> 'a list \<Rightarrow> nat option" where
  "findIndex P [] = None"
| "findIndex P (x # xs) = (if P x then Some 0 else map_option Suc (findIndex P xs))"

subsection \<open>The priority lookup as a plain object\<close>

text \<open>
  \<^verbatim>\<open>providerPriorities\<close> is a plain object made from \<^verbatim>\<open>{}\<close>: its own properties are the
  priorities that were assigned, and every other key is read through \<^verbatim>\<open>Object.prototype\<close>.
  What a read \<^verbatim>\<open>providerPriorities[key]\<close> gives is therefore \<^verbatim>\<open>undefined\<close>, a number, or
  an inherited member (a function, or for \<^verbatim>\<open>__proto__\<close> the prototype object itself). An
  inherited member is modelled by the string it converts to when \<^verbatim>\<open>>\<close> compares it.
\<close>

datatype PropertyValue = Undefined | NumberValue int | InheritedValue string

text \<open>
  The members of \<^verbatim>\<open>Object.prototype\<close> as ECMAScript (with its Annex B) defines them, each with
  the string its value converts to. Engines differ in the text after the parameter list of
  a native function; no comparison between two of these strings gets that far.
\<close>

definition objectPrototype :: "(string \<times> string) list" where
  "objectPrototype =
     [(''constructor'', ''function Object() { [native code] }''),
      (''__defineGetter__'', ''function __defineGetter__() { [native code] }''),
      (''__defineSetter__'', ''function __defineSetter__() { [native code] }''),
      (''hasOwnProperty'', ''function hasOwnProperty() { [native code] }''),
      (''__lookupGetter__'', ''function __lookupGetter__() { [native code] }''),
      (''__lookupSetter__'', ''function __lookupSetter__() { [native code] }''),
      (''isPrototypeOf'', ''function isPrototypeOf() { [native code] }''),
      (''propertyIsEnumerable'', ''function propertyIsEnumerable() { [native code] }''),
      (''toString'', ''function toString() { [native code] }''),
      (''valueOf'', ''function valueOf() { [native code] }''),
      (''toLocaleString'', ''function toLocaleString() { [native code] }''),
      (''__proto__'', ''[object Object]'')]"

text \<open>\<^verbatim>\<open>object[key]\<close>: an own property first, then the prototype.\<close>

definition readProperty :: "(string \<rightharpoonup> int) \<Rightarrow> string \<Rightarrow> PropertyValue" where
  "readProperty object key =
     (case object key of
        Some n \<Rightarrow> NumberValue n
      | None \<Rightarrow>
          (case map_of objectPrototype key of
             Some text \<Rightarrow> InheritedValue text
           | None \<Rightarrow> Undefined))"

text \<open>
  \<^verbatim>\<open>object[key] = n\<close> for a number \<^verbatim>\<open>n\<close>: it makes or overwrites an own property, except for
  the key \<^verbatim>\<open>__proto__\<close>, an accessor whose setter ignores a number.
\<close>

definition writeProperty :: "(string \<rightharpoonup> int) \<Rightarrow> string \<Rightarrow> int \<Rightarrow> (string \<rightharpoonup> int)" where
  "writeProperty object key n = (if key = ''__proto__'' then object else object(key \<mapsto> n))"

text \<open>
  \<^verbatim>\<open>a > b\<close>: two numbers are compared as numbers, two inherited members as strings (by code
  unit), and a number with an inherited member or anything with \<^verbatim>\<open>undefined\<close> compares
  through NaN, which is never greater.
\<close>

fun stringGreater :: "string \<Rightarrow> string \<Rightarrow> bool" where
  "stringGreater [] t = False"
| "stringGreater (c # s) [] = True"
| "stringGreater (c # s) (d # t) =
     (if c = d then stringGreater s t else (of_char d :: nat) < of_char c)"

fun greaterThan :: "PropertyValue \<Rightarrow> PropertyValue \<Rightarrow> bool" where
  "greaterThan (NumberValue a) (NumberValue b) = (b < a)"
| "greaterThan (InheritedValue s) (InheritedValue t) = stringGreater s t"
| "greaterThan a b = False"

subsection \<open>The merge loop\<close>

text \<open>One round of the loop body: the output so far and the next point of the sorted input.\<close>

definition mergePoint ::
  "(string \<rightharpoonup> int) \<Rightarrow> 'a DataPoint list \<Rightarrow> 'a DataPoint \<Rightarrow> thrown + 'a DataPoint list" where
  "mergePoint providerPriorities merged point =
     (case findIndex (overlaps point) merged of
        None \<Rightarrow> Inr (merged @ [point])
      | Some index \<Rightarrow>
          (let currentPriority = readProperty providerPriorities (source point);
               existingPriority = readProperty providerPriorities (source (merged ! index))
           in if currentPriority = Undefined \<or> existingPriority = Undefined
              then Inl (HealthDataError PRIORITY_ERROR ''Provider priority not found'')
              else Inr (if greaterThan currentPriority existingPriority
                        then merged[index := point] else merged)))"

fun mergeLoop ::
  "(string \<rightharpoonup> int) \<Rightarrow> 'a DataPoint list \<Rightarrow> 'a DataPoint list \<Rightarrow> thrown + 'a DataPoint list" where
  "mergeLoop providerPriorities merged [] = Inr merged"
| "mergeLoop providerPriorities merged (point # sortedPoints) =
     (case mergePoint providerPriorities merged point of
        Inl e \<Rightarrow> Inl e
      | Inr merged' \<Rightarrow> mergeLoop providerPriorities merged' sortedPoints)"

text \<open>
  \<^verbatim>\<open>Array.prototype.sort\<close> with the comparator \<^verbatim>\<open>a.start - b.start\<close> is a stable ascending
  sort on the start time; \<open>sort_key\<close> is the stable insertion sort of the library.
\<close>

definition mergeDataPoints ::
  "'a DataPoint list \<Rightarrow> (string \<rightharpoonup> int) \<Rightarrow> thrown + 'a DataPoint list" where
  "mergeDataPoints dataPoints providerPriorities =
     (if dataPoints = [] then Inr []
      else mergeLoop providerPriorities [] (sort_key start dataPoints))"

section \<open>Providers, listeners and the manager's state (healthProviderManager.ts)\<close>

text \<open>
  A provider is an object of an adapter class; the manager sees its descriptor fields and the
  outcome of each call it awaits. A call that can reject is modelled by its outcome: the
  value it resolves to, or what it throws. The cleanup function \<^verbatim>\<open>onData\<close> resolves to is
  modelled by what calling it does: it returns (\<open>None\<close>) or throws. The fields the modelled
  operations never read (\<^verbatim>\<open>name\<close>, \<^verbatim>\<open>metricMapping\<close>, \<^verbatim>\<open>init\<close>, \<^verbatim>\<open>requestPermissions\<close>) are
  left out.
\<close>

record HealthProviderConfig =
  polling_supported :: bool
  polling_minIntervalMs :: nat
  realtime_supported :: bool

type_synonym CleanupFn = "thrown option"

record 'a HealthDataProvider =
  id' :: string
  priority :: int
  config :: HealthProviderConfig
  isAvailable :: "thrown + bool"
  getData :: "HealthMetric \<Rightarrow> int \<Rightarrow> int \<Rightarrow> thrown + 'a HealthMetricSample"
  onData :: "int \<Rightarrow> int \<Rightarrow> thrown + CleanupFn"
  getSupportedMetrics :: "HealthMetric list"
  cleanUp :: "thrown option"

text \<open>
  A listener is a function object: the \<^verbatim>\<open>Set\<close> of listeners tells two of them apart by
  reference, and a call of one returns or throws. Listeners are taken not to register or
  remove listeners while they run.
\<close>

record 'a DataCallback =
  callbackRef :: nat
  callbackRun :: "HealthMetric \<Rightarrow> 'a HealthMetricSample \<Rightarrow> thrown option"

text \<open>What the manager does to the world outside its maps, in the order it does it.\<close>

datatype 'a Effect =
    CallbackCalled nat HealthMetric "'a HealthMetricSample"
  | OnDataCalled string int int
  | CleanupFnCalled string
  | IntervalCleared nat
  | ProviderCleanUpCalled string

text \<open>
  The three \<^verbatim>\<open>Map\<close>s and the \<^verbatim>\<open>Set\<close> keep insertion order, so each is a list: of pairs
  for a map (read with \<open>map_of\<close>, written with \<open>AList.update\<close>, which replaces in place or
  appends), of listeners with distinct references for the set. \<open>enabledProviders\<close> is what
  \<^verbatim>\<open>store.get(ProviderState$).enabledProviders\<close> reads; the manager never writes it. The
  operations are modelled one at a time, each running to its end before the next starts.
\<close>

record 'a HealthProviderManager =
  providers :: "(string \<times> 'a HealthDataProvider) list"
  providerSubscriptions :: "(string \<times> CleanupFn) list"
  dataCallbacks :: "'a DataCallback list"
  pollingIntervals :: "(string \<times> nat) list"
  enabledProviders :: "string list"
  effects :: "'a Effect list"

text \<open>\<^verbatim>\<open>hasValidData\<close>, the same in both classes: the value is a non-empty array.\<close>

definition hasValidData :: "HealthMetric \<Rightarrow> 'a HealthMetricSample \<Rightarrow> bool" where
  "hasValidData metric data \<longleftrightarrow> value' data \<noteq> []"

subsection \<open>Listeners\<close>

definition subscribeToProviderUpdates ::
  "'a HealthProviderManager \<Rightarrow> 'a DataCallback \<Rightarrow> 'a HealthProviderManager" where
  "subscribeToProviderUpdates s callback =
     s\<lparr>dataCallbacks :=
         (if callbackRef callback \<in> callbackRef ` set (dataCallbacks s) then dataCallbacks s
          else dataCallbacks s @ [callback])\<rparr>"

text \<open>
  The \<^verbatim>\<open>for ... of\<close> loop of \<^verbatim>\<open>notifyCallbacks\<close>: there is no \<^verbatim>\<open>try\<close> around the call, so
  what a listener throws leaves the loop.
\<close>

fun notifyLoop ::
  "'a DataCallback list \<Rightarrow> HealthMetric \<Rightarrow> 'a HealthMetricSample \<Rightarrow> 'a Effect list \<Rightarrow>
   thrown option \<times> 'a Effect list" where
  "notifyLoop [] metric data log = (None, log)"
| "notifyLoop (callback # rest) metric data log =
     (case callbackRun callback metric data of
        Some error \<Rightarrow> (Some error, log @ [CallbackCalled (callbackRef callback) metric data])
      | None \<Rightarrow>
          notifyLoop rest metric data (log @ [CallbackCalled (callbackRef callback) metric data]))"

definition notifyCallbacks ::
  "'a HealthProviderManager \<Rightarrow> HealthMetric \<Rightarrow> 'a HealthMetricSample \<Rightarrow>
   thrown option \<times> 'a HealthProviderManager" where
  "notifyCallbacks s metric data =
     (case notifyLoop (dataCallbacks s) metric data (effects s) of
        (outcome, log) \<Rightarrow> (outcome, s\<lparr>effects := log\<rparr>))"

subsection \<open>Realtime streams and polling\<close>

text \<open>The arrow function handed to \<^verbatim>\<open>provider.onData\<close>: it forwards what the provider pushes.\<close>

definition providerStreamCallback ::
  "'a HealthProviderManager \<Rightarrow> HealthMetric \<Rightarrow> 'a HealthMetricSample \<Rightarrow>
   thrown option \<times> 'a HealthProviderManager" where
  "providerStreamCallback s metric data = notifyCallbacks s metric data"

definition initializeProviderStream ::
  "'a HealthProviderManager \<Rightarrow> 'a HealthDataProvider \<Rightarrow> int \<Rightarrow> int \<Rightarrow>
   (thrown + unit) \<times> 'a HealthProviderManager" where
  "initializeProviderStream s provider startDate now =
     (let s' = s\<lparr>effects := effects s @ [OnDataCalled (id' provider) startDate now]\<rparr> in
      case onData provider startDate now of
        Inr cleanupFn \<Rightarrow>
          (Inr (),
           s'\<lparr>providerSubscriptions :=
                 AList.update (id' provider) cleanupFn (providerSubscriptions s')\<rparr>)
      | Inl error \<Rightarrow>
          (Inl (if isTrackleError error then error
                else HealthDataError SUBSCRIPTION_ERROR
                       (''Failed to initialize data stream for provider '' @ id' provider)),
           s'))"

text \<open>One run of \<^verbatim>\<open>pollData\<close>, the task \<^verbatim>\<open>startPollingForProvider\<close> schedules per metric.\<close>

definition pollData ::
  "'a HealthProviderManager \<Rightarrow> 'a HealthDataProvider \<Rightarrow> HealthMetric \<Rightarrow> int \<Rightarrow> int \<Rightarrow>
   (thrown + unit) \<times> 'a HealthProviderManager" where
  "pollData s provider metric startDate now =
     (let wrap = (\<lambda>error. if isTrackleError error then error
                    else HealthDataError POLLING_ERROR
                           (''Failed to poll data for provider '' @ id' provider)) in
      case getData provider metric startDate now of
        Inl error \<Rightarrow> (Inl (wrap error), s)
      | Inr data \<Rightarrow>
          if hasValidData metric data then
            (case notifyCallbacks s metric data of
               (Some error, s') \<Rightarrow> (Inl (wrap error), s')
             | (None, s') \<Rightarrow> (Inr (), s'))
          else (Inr (), s))"

text \<open>
  Timer keys are \<^verbatim>\<open>`${provider.id}-${metric}`\<close>; \<^verbatim>\<open>stopPollingForProvider\<close> clears and deletes
  every entry whose key starts with the id and a dash.
\<close>

definition stopPollingForProvider ::
  "'a HealthProviderManager \<Rightarrow> string \<Rightarrow> 'a HealthProviderManager" where
  "stopPollingForProvider s providerId =
     s\<lparr>pollingIntervals :=
         filter (\<lambda>(key, interval). \<not> prefix (providerId @ ''-'') key) (pollingIntervals s),
       effects :=
         effects s @
         map (\<lambda>(key, interval). IntervalCleared interval)
           (filter (\<lambda>(key, interval). prefix (providerId @ ''-'') key) (pollingIntervals s))\<rparr>"

subsection \<open>Registering and disabling a provider\<close>

definition registerProvider ::
  "'a HealthProviderManager \<Rightarrow> 'a HealthDataProvider \<Rightarrow> int \<Rightarrow>
   (thrown + unit) \<times> 'a HealthProviderManager" where
  "registerProvider s provider now =
     (case isAvailable provider of
        Inl error \<Rightarrow> (Inl error, s)
      | Inr available \<Rightarrow>
          if available then
            (if map_of (providers s) (id' provider) \<noteq> None then
               (Inl (PlainError (''Provider with id '' @ id' provider @ '' is already registered'')), s)
             else
               (let s' = s\<lparr>providers := AList.update (id' provider) provider (providers s)\<rparr> in
                if realtime_supported (config provider)
                then initializeProviderStream s' provider now now
                else (Inr (), s')))
          else (Inr (), s))"

text \<open>
  \<^verbatim>\<open>disableProvider\<close>: the \<^verbatim>\<open>catch\<close> around the cleanup call throws again, so nothing after the
  \<^verbatim>\<open>try\<close> statement runs when the cleanup function throws. \<^verbatim>\<open>provider?.cleanUp()\<close> is skipped
  for an id that is not registered.
\<close>

definition disableProvider ::
  "'a HealthProviderManager \<Rightarrow> string \<Rightarrow> (thrown + unit) \<times> 'a HealthProviderManager" where
  "disableProvider s providerId =
     (let teardown = (\<lambda>s1.
            let s2 = stopPollingForProvider s1 providerId in
            case map_of (providers s2) providerId of
              None \<Rightarrow> (Inr (), s2)
            | Some provider \<Rightarrow>
                (case cleanUp provider of
                   Some error \<Rightarrow>
                     (Inl error, s2\<lparr>effects := effects s2 @ [ProviderCleanUpCalled providerId]\<rparr>)
                 | None \<Rightarrow>
                     (Inr (), s2\<lparr>effects := effects s2 @ [ProviderCleanUpCalled providerId]\<rparr>))) in
      case map_of (providerSubscriptions s) providerId of
        Some cleanup \<Rightarrow>
          (let s1 = s\<lparr>effects := effects s @ [CleanupFnCalled providerId]\<rparr> in
           case cleanup of
             Some error \<Rightarrow>
               (Inl (if isTrackleError error then error
                     else HealthDataError CLEANUP_ERROR
                            (''Failed to clean up provider '' @ providerId)),
                s1)
           | None \<Rightarrow>
               teardown (s1\<lparr>providerSubscriptions :=
                              AList.delete providerId (providerSubscriptions s1)\<rparr>))
      | None \<Rightarrow> teardown s)"

subsection \<open>Provider lists\<close>

text \<open>
  The comparator \<^verbatim>\<open>b.priority - a.priority\<close> sorts by descending priority; the sort is stable.
\<close>

definition getProvidersForMetric ::
  "'a HealthProviderManager \<Rightarrow> HealthMetric \<Rightarrow> 'a HealthDataProvider list" where
  "getProvidersForMetric s metric =
     sort_key (\<lambda>provider. - priority provider)
       (filter (\<lambda>provider. metric \<in> set (getSupportedMetrics provider) \<and>
                           id' provider \<in> set (enabledProviders s))
          (map snd (providers s)))"

definition getAllProviders :: "'a HealthProviderManager \<Rightarrow> 'a HealthDataProvider list" where
  "getAllProviders s = map snd (providers s)"

section \<open>The data service (HealthDataService)\<close>

text \<open>
  The service reads the manager. The time \<^verbatim>\<open>new Date()\<close> reads is a parameter: \<open>now\<close> where
  an operation reads it once, \<open>stamp\<close> for the reads inside a consolidation (taken to be one
  time for all metrics). The result of a consolidation is an object with at most one sample
  per metric.
\<close>

type_synonym 'a HealthData = "HealthMetric \<rightharpoonup> 'a HealthMetricSample"

text \<open>
  The \<^verbatim>\<open>reduce\<close> that \<^verbatim>\<open>getProviderPriorities\<close> and \<^verbatim>\<open>consolidateHealthMetrics\<close> each run
  over their list of providers, from the empty object.
\<close>

definition priorityLookup :: "'a HealthDataProvider list \<Rightarrow> (string \<rightharpoonup> int)" where
  "priorityLookup providerList =
     fold (\<lambda>provider priorities. writeProperty priorities (id' provider) (priority provider))
       providerList Map.empty"

definition getProviderPriorities :: "'a HealthProviderManager \<Rightarrow> (string \<rightharpoonup> int)" where
  "getProviderPriorities s = priorityLookup (getAllProviders s)"

text \<open>The inner loop of \<^verbatim>\<open>consolidateHealthMetrics\<close>: one fetch per provider, in order.\<close>

fun collectDataPoints ::
  "'a HealthDataProvider list \<Rightarrow> HealthMetric \<Rightarrow> int \<Rightarrow> int \<Rightarrow> 'a DataPoint list \<Rightarrow>
   thrown + 'a DataPoint list" where
  "collectDataPoints [] metric startDate endDate allDataPoints = Inr allDataPoints"
| "collectDataPoints (provider # rest) metric startDate endDate allDataPoints =
     (case getData provider metric startDate endDate of
        Inl error \<Rightarrow>
          Inl (if isTrackleError error then error
               else HealthDataError DATA_FETCH_ERROR ''Failed to fetch health data'')
      | Inr data \<Rightarrow>
          collectDataPoints rest metric startDate endDate
            (if hasValidData metric data
             then allDataPoints @ map (\<lambda>point. point\<lparr>source := id' provider\<rparr>) (value' data)
             else allDataPoints))"

text \<open>The body of the outer loop, for one metric, up to the merged points.\<close>

definition consolidateMetric ::
  "'a HealthProviderManager \<Rightarrow> HealthMetric \<Rightarrow> int \<Rightarrow> int \<Rightarrow> thrown + 'a DataPoint list" where
  "consolidateMetric s metric startDate endDate =
     (let providers = getProvidersForMetric s metric in
      case collectDataPoints providers metric startDate endDate [] of
        Inl error \<Rightarrow> Inl error
      | Inr allDataPoints \<Rightarrow>
          mergeDataPoints (sort_key start allDataPoints) (priorityLookup providers))"

fun consolidateLoop ::
  "'a HealthProviderManager \<Rightarrow> HealthMetric list \<Rightarrow> int \<Rightarrow> int \<Rightarrow> int \<Rightarrow> 'a HealthData \<Rightarrow>
   thrown + 'a HealthData" where
  "consolidateLoop s [] startDate endDate stamp result = Inr result"
| "consolidateLoop s (metric # metrics) startDate endDate stamp result =
     (case consolidateMetric s metric startDate endDate of
        Inl error \<Rightarrow> Inl error
      | Inr mergedDataPoints \<Rightarrow>
          consolidateLoop s metrics startDate endDate stamp
            (if mergedDataPoints \<noteq> []
             then result(metric \<mapsto>
                    \<lparr>value' = mergedDataPoints, type' = category, timestamp = stamp\<rparr>)
             else result))"

definition consolidateHealthMetrics ::
  "'a HealthProviderManager \<Rightarrow> HealthMetric list \<Rightarrow> int \<Rightarrow> int \<Rightarrow> int \<Rightarrow>
   thrown + 'a HealthData" where
  "consolidateHealthMetrics s metrics startDate endDate stamp =
     consolidateLoop s metrics startDate endDate stamp Map.empty"

record 'a SyncResult =
  error :: "string option"
  isLoading :: bool
  healthData :: "'a HealthData"
  lastSync :: int

definition syncHealthData ::
  "'a HealthProviderManager \<Rightarrow> HealthMetric list \<Rightarrow> int \<Rightarrow> int \<Rightarrow> int \<Rightarrow> 'a SyncResult" where
  "syncHealthData s metrics lastSync' now stamp =
     (case consolidateHealthMetrics s metrics lastSync' now stamp of
        Inr data \<Rightarrow> \<lparr>error = None, isLoading = False, healthData = data, lastSync = now\<rparr>
      | Inl e \<Rightarrow>
          \<lparr>error = Some (message e), isLoading = False, healthData = Map.empty,
           lastSync = lastSync'\<rparr>)"

definition mergeMetricData ::
  "'a HealthProviderManager \<Rightarrow> 'a HealthMetricSample option \<Rightarrow> 'a HealthMetricSample \<Rightarrow> int \<Rightarrow>
   thrown + 'a HealthMetricSample" where
  "mergeMetricData s existing newData now =
     (case existing of
        None \<Rightarrow> Inr newData
      | Some existing' \<Rightarrow>
          (case mergeDataPoints (value' existing' @ value' newData) (getProviderPriorities s) of
             Inl e \<Rightarrow> Inl e
           | Inr merged \<Rightarrow> Inr \<lparr>value' = merged, type' = type' newData, timestamp = now\<rparr>))"

section \<open>Scenario inputs\<close>

text \<open>Scenario inputs for the payload-carrying variants of a data point.\<close>

datatype IllnessType = cough | diarrhea | headache | fatigue | fever | chills

datatype SleepStageType = awake | core | deep | rem | unspecified | inBed

type_synonym Severity = nat

datatype Payload =
    SleepPayload "(SleepStageType \<times> int \<times> int) list"
  | IllnessPayload IllnessType Severity
  | StressPayload Severity

section \<open>Properties stated about the merge\<close>

text \<open>No two entries of a list of data points overlap.\<close>

definition nonOverlapping :: "'a DataPoint list \<Rightarrow> bool" where
  "nonOverlapping out \<longleftrightarrow>
     (\<forall>i<length out. \<forall>j<length out. i \<noteq> j \<longrightarrow> \<not> overlaps (out ! i) (out ! j))"

text \<open>
  Scenario A: provider A (priority 10) and provider B (priority 0) report a fever over the same
  eight hours.
\<close>

definition scenarioA :: "Payload DataPoint list" where
  "scenarioA =
     [\<lparr>start = 0, end' = 28800000, source = ''A'', payload = IllnessPayload fever 2\<rparr>,
      \<lparr>start = 0, end' = 28800000, source = ''B'', payload = IllnessPayload fever 4\<rparr>]"

definition prioritiesAB :: "string \<rightharpoonup> int" where
  "prioritiesAB = [''A'' \<mapsto> 10, ''B'' \<mapsto> 0]"

text \<open>The same two points when only provider A is in the lookup.\<close>

definition prioritiesA :: "string \<rightharpoonup> int" where
  "prioritiesA = [''A'' \<mapsto> 10]"

text \<open>
  Scenario B: A reports sleep from 00:00 to 04:00, B from 04:00 to 08:00; the intervals touch.
\<close>

definition scenarioB :: "Payload DataPoint list" where
  "scenarioB =
     [\<lparr>start = 0, end' = 14400000, source = ''A'', payload = SleepPayload []\<rparr>,
      \<lparr>start = 14400000, end' = 28800000, source = ''B'', payload = SleepPayload []\<rparr>]"

text \<open>
  Three points: the second replaces the first, and the third overlaps only the first.
\<close>

definition threePoints :: "Payload DataPoint list" where
  "threePoints =
     [\<lparr>start = 0, end' = 10, source = ''A'', payload = StressPayload 1\<rparr>,
      \<lparr>start = 2, end' = 3, source = ''B'', payload = StressPayload 2\<rparr>,
      \<lparr>start = 5, end' = 6, source = ''C'', payload = StressPayload 3\<rparr>]"

definition prioritiesABC :: "string \<rightharpoonup> int" where
  "prioritiesABC = [''A'' \<mapsto> 5, ''B'' \<mapsto> 10, ''C'' \<mapsto> 1]"

text \<open>
  A point is dominated in a list of points when another point of the list overlaps it and has
  a source of strictly greater priority, or of the same priority and a start no later.
\<close>

definition dominated :: "(string \<rightharpoonup> int) \<Rightarrow> 'a DataPoint list \<Rightarrow> 'a DataPoint \<Rightarrow> bool" where
  "dominated prio points p \<longleftrightarrow>
     (\<exists>q\<in>set points. q \<noteq> p \<and> overlaps q p \<and>
        (\<exists>a b. prio (source q) = Some a \<and> prio (source p) = Some b \<and>
           (b < a \<or> b = a \<and> start q \<le> start p)))"

text \<open>
  A point of provider A and an overlapping point whose source is the name of a member of
  \<^verbatim>\<open>Object.prototype\<close>.
\<close>

definition prototypeNamedPoints :: "Payload DataPoint list" where
  "prototypeNamedPoints =
     [\<lparr>start = 0, end' = 10, source = ''A'', payload = StressPayload 1\<rparr>,
      \<lparr>start = 5, end' = 15, source = ''toString'', payload = StressPayload 2\<rparr>]"

text \<open>
  A point whose interval is not reversed, a list whose entries each end before the next one
  starts, and a list with every entry repeated in place.
\<close>

definition wellFormed :: "'a DataPoint \<Rightarrow> bool" where
  "wellFormed p \<longleftrightarrow> start p \<le> end' p"

definition chain :: "'a DataPoint list \<Rightarrow> bool" where
  "chain xs \<longleftrightarrow> sorted_wrt (\<lambda>a b. end' a < start b) xs"

definition twice :: "'a list \<Rightarrow> 'a list" where
  "twice xs = concat (map (\<lambda>x. [x, x]) xs)"

text \<open>
  A point of a source that is not a provider (the initial health state holds such points,
  with source \<^verbatim>\<open>test\<close>), and a point that ends before it starts.
\<close>

definition unknownSourcePoint :: "Payload DataPoint" where
  "unknownSourcePoint = \<lparr>start = 0, end' = 10, source = ''test'', payload = StressPayload 3\<rparr>"

definition reversedPoint :: "Payload DataPoint" where
  "reversedPoint = \<lparr>start = 5, end' = 3, source = ''A'', payload = StressPayload 3\<rparr>"

section \<open>Properties stated about the manager and scenario states\<close>

text \<open>
  The calls a notification makes to the given listeners, in order.
\<close>

definition calls :: "HealthMetric \<Rightarrow> 'a HealthMetricSample \<Rightarrow> 'a DataCallback list \<Rightarrow> 'a Effect list" where
  "calls metric data callbacks =
     map (\<lambda>callback. CallbackCalled (callbackRef callback) metric data) callbacks"

text \<open>
  A manager with nothing registered, a listener that throws and one that returns, a sample
  with one point and a sample with none.
\<close>

definition emptyManager :: "Payload HealthProviderManager" where
  "emptyManager =
     \<lparr>providers = [], providerSubscriptions = [], dataCallbacks = [], pollingIntervals = [],
      enabledProviders = [], effects = []\<rparr>"

definition throwingListener :: "Payload DataCallback" where
  "throwingListener =
     \<lparr>callbackRef = 1, callbackRun = (\<lambda>metric data. Some (PlainError ''listener failed''))\<rparr>"

definition quietListener :: "Payload DataCallback" where
  "quietListener = \<lparr>callbackRef = 2, callbackRun = (\<lambda>metric data. None)\<rparr>"

definition sleepSample :: "Payload HealthMetricSample" where
  "sleepSample =
     \<lparr>value' = [\<lparr>start = 0, end' = 14400000, source = ''A'', payload = SleepPayload []\<rparr>],
      type' = category, timestamp = 14400000\<rparr>"

definition emptySample :: "Payload HealthMetricSample" where
  "emptySample = \<lparr>value' = [], type' = category, timestamp = 0\<rparr>"

text \<open>
  A provider that supports realtime pushes and polling, available on the device.
\<close>

definition appleHealth :: "Payload HealthDataProvider" where
  "appleHealth =
     \<lparr>id' = ''apple-health'', priority = 10,
      config = \<lparr>polling_supported = True, polling_minIntervalMs = 60000, realtime_supported = True\<rparr>,
      isAvailable = Inr True,
      getData = (\<lambda>metric startDate endDate. Inr sleepSample),
      onData = (\<lambda>startDate endDate. Inr None),
      getSupportedMetrics = [sleep],
      cleanUp = None\<rparr>"

text \<open>
  apple-health is registered, has a timer, and its stored cleanup function throws.
\<close>

definition streamingManager :: "Payload HealthProviderManager" where
  "streamingManager =
     \<lparr>providers = [(''apple-health'', appleHealth)],
      providerSubscriptions = [(''apple-health'', Some (PlainError ''unsubscribe failed''))],
      dataCallbacks = [],
      pollingIntervals = [(''apple-health-sleep'', 7)],
      enabledProviders = [''apple-health''],
      effects = []\<rparr>"

text \<open>
  apple-health is registered and has a timer, but no realtime subscription.
\<close>

definition pollingManager :: "Payload HealthProviderManager" where
  "pollingManager = streamingManager\<lparr>providerSubscriptions := []\<rparr>"

text \<open>
  One enabled provider for sleep and illness: its sleep fetch resolves, its illness fetch
  rejects with an untyped error.
\<close>

definition flakyProvider :: "Payload HealthDataProvider" where
  "flakyProvider =
     \<lparr>id' = ''A'', priority = 10,
      config = \<lparr>polling_supported = True, polling_minIntervalMs = 60000, realtime_supported = False\<rparr>,
      isAvailable = Inr True,
      getData = (\<lambda>metric startDate endDate.
                   if metric = sleep then Inr sleepSample else Inl (PlainError ''network down'')),
      onData = (\<lambda>startDate endDate. Inr None),
      getSupportedMetrics = [sleep, illness],
      cleanUp = None\<rparr>"

definition flakyManager :: "Payload HealthProviderManager" where
  "flakyManager =
     \<lparr>providers = [(''A'', flakyProvider)], providerSubscriptions = [], dataCallbacks = [],
      pollingIntervals = [], enabledProviders = [''A''], effects = []\<rparr>"

text \<open>
  A is enabled, B is registered but not enabled. What A returns for sleep are two overlapping
  points that carry B's id.
\<close>

definition pointsOfB :: "Payload HealthMetricSample" where
  "pointsOfB =
     \<lparr>value' = [\<lparr>start = 0, end' = 10, source = ''B'', payload = SleepPayload []\<rparr>,
                \<lparr>start = 5, end' = 15, source = ''B'', payload = SleepPayload []\<rparr>],
      type' = category, timestamp = 15\<rparr>"

definition enabledA :: "Payload HealthDataProvider" where
  "enabledA =
     \<lparr>id' = ''A'', priority = 10,
      config = \<lparr>polling_supported = True, polling_minIntervalMs = 60000, realtime_supported = False\<rparr>,
      isAvailable = Inr True,
      getData = (\<lambda>metric startDate endDate. Inr pointsOfB),
      onData = (\<lambda>startDate endDate. Inr None),
      getSupportedMetrics = [sleep],
      cleanUp = None\<rparr>"

definition disabledB :: "Payload HealthDataProvider" where
  "disabledB = enabledA\<lparr>id' := ''B'', priority := 0\<rparr>"

definition twoProviderManager :: "Payload HealthProviderManager" where
  "twoProviderManager =
     \<lparr>providers = [(''A'', enabledA), (''B'', disabledB)], providerSubscriptions = [],
      dataCallbacks = [], pollingIntervals = [], enabledProviders = [''A''], effects = []\<rparr>"

section \<open>Lemmas on the merge loop\<close>

lemma findIndex_None: "findIndex P xs = None \<longleftrightarrow> (\<forall>x\<in>set xs. \<not> P x)"
  by (induction xs) auto

lemma findIndex_Some:
  "findIndex P xs = Some i \<Longrightarrow> i < length xs \<and> P (xs ! i) \<and> (\<forall>j<i. \<not> P (xs ! j))"
proof (induction xs arbitrary: i)
  case Nil
  then show ?case by simp
next
  case (Cons x xs)
  show ?case
  proof (cases "P x")
    case True
    with Cons.prems show ?thesis by simp
  next
    case False
    with Cons.prems obtain k where k: "findIndex P xs = Some k" "i = Suc k"
      by auto
    from Cons.IH [OF k(1)] False k(2) show ?thesis
      by (auto simp: less_Suc_eq_0_disj)
  qed
qed

lemma overlaps_sym: "overlaps a b \<longleftrightarrow> overlaps b a"
  by (auto simp: overlaps_def)

lemma overlaps_common_later:
  "overlaps p e \<Longrightarrow> overlaps p e' \<Longrightarrow> start e \<le> start p \<Longrightarrow> start e' \<le> start p \<Longrightarrow> overlaps e e'"
  by (auto simp: overlaps_def)

lemma readProperty_own: "prio key = Some n \<Longrightarrow> readProperty prio key = NumberValue n"
  by (simp add: readProperty_def)

lemma readProperty_dom: "key \<in> dom prio \<Longrightarrow> readProperty prio key \<noteq> Undefined"
  by (auto simp: readProperty_def)

lemma mergePoint_cases:
  assumes "mergePoint prio merged p = Inr merged'" "findIndex (overlaps p) merged = Some k"
  shows "merged' = merged \<or> merged' = merged[k := p]"
  using assms by (auto simp: mergePoint_def Let_def split: if_splits)

lemma mergePoint_own:
  assumes "findIndex (overlaps p) merged = Some k"
    and "prio (source p) = Some a" "prio (source (merged ! k)) = Some b"
  shows "mergePoint prio merged p = Inr (if b < a then merged[k := p] else merged)"
  using assms by (simp add: mergePoint_def readProperty_own)

lemma nonOverlapping_snoc:
  assumes "nonOverlapping merged" "\<forall>e\<in>set merged. \<not> overlaps p e"
  shows "nonOverlapping (merged @ [p])"
  unfolding nonOverlapping_def
proof (intro allI impI)
  fix i j
  assume ij: "i < length (merged @ [p])" "j < length (merged @ [p])" "i \<noteq> j"
  consider "i < length merged" "j < length merged"
    | "i < length merged" "j = length merged"
    | "i = length merged" "j < length merged"
    using ij by fastforce
  then show "\<not> overlaps ((merged @ [p]) ! i) ((merged @ [p]) ! j)"
  proof cases
    case 1
    with assms(1) ij(3) show ?thesis by (simp add: nonOverlapping_def nth_append)
  next
    case 2
    with assms(2) have "\<not> overlaps p (merged ! i)" by simp
    then have "\<not> overlaps (merged ! i) p" by (auto simp: overlaps_def)
    with 2 show ?thesis by (simp add: nth_append)
  next
    case 3
    with assms(2) show ?thesis by (simp add: nth_append)
  qed
qed

lemma nonOverlapping_update:
  assumes no: "nonOverlapping merged"
    and le: "\<forall>e\<in>set merged. start e \<le> start p"
    and k: "k < length merged" "overlaps p (merged ! k)"
  shows "nonOverlapping (merged[k := p])"
  unfolding nonOverlapping_def
proof (intro allI impI)
  fix i j
  assume ij: "i < length (merged[k := p])" "j < length (merged[k := p])" "i \<noteq> j"
  have other: "\<not> overlaps p (merged ! m)" if m: "m < length merged" "m \<noteq> k" for m
  proof
    assume o: "overlaps p (merged ! m)"
    from le k(1) have "start (merged ! k) \<le> start p" by simp
    moreover from le m(1) have "start (merged ! m) \<le> start p" by simp
    ultimately have "overlaps (merged ! k) (merged ! m)"
      using overlaps_common_later [OF k(2) o] by blast
    moreover from no k(1) m have "\<not> overlaps (merged ! k) (merged ! m)"
      unfolding nonOverlapping_def by blast
    ultimately show False by blast
  qed
  have other': "\<not> overlaps (merged ! m) p" if m: "m < length merged" "m \<noteq> k" for m
    using other [OF m] by (auto simp: overlaps_def)
  show "\<not> overlaps (merged[k := p] ! i) (merged[k := p] ! j)"
  proof (cases "i = k")
    case True
    with ij have "j < length merged" "j \<noteq> k" by simp_all
    from other [OF this] True ij show ?thesis by simp
  next
    case False
    show ?thesis
    proof (cases "j = k")
      case True
      from ij False have "i < length merged" "i \<noteq> k" by simp_all
      from other' [OF this] True ij False show ?thesis by simp
    next
      case jk: False
      from ij have "i < length merged" "j < length merged" by simp_all
      with no ij(3) have "\<not> overlaps (merged ! i) (merged ! j)"
        unfolding nonOverlapping_def by blast
      with False jk show ?thesis by simp
    qed
  qed
qed

lemma mergePoint_nonOverlapping:
  assumes "nonOverlapping merged" "\<forall>e\<in>set merged. start e \<le> start p"
    and "mergePoint prio merged p = Inr merged'"
  shows "nonOverlapping merged'"
proof (cases "findIndex (overlaps p) merged")
  case None
  with assms(3) have "merged' = merged @ [p]" by (simp add: mergePoint_def)
  with None assms(1) show ?thesis by (simp add: nonOverlapping_snoc findIndex_None)
next
  case (Some k)
  from findIndex_Some [OF Some] have k: "k < length merged" "overlaps p (merged ! k)" by auto
  from mergePoint_cases [OF assms(3) Some] have "merged' = merged \<or> merged' = merged[k := p]" .
  with assms(1,2) k show ?thesis by (auto intro: nonOverlapping_update)
qed

lemma mergePoint_subset:
  "mergePoint prio merged p = Inr merged' \<Longrightarrow> set merged' \<subseteq> insert p (set merged)"
proof (cases "findIndex (overlaps p) merged")
  case None
  assume "mergePoint prio merged p = Inr merged'"
  with None show ?thesis by (auto simp: mergePoint_def)
next
  case (Some k)
  assume "mergePoint prio merged p = Inr merged'"
  with Some have "merged' = merged \<or> merged' = merged[k := p]"
    by (auto dest: mergePoint_cases)
  with set_update_subset_insert [of merged k p] show ?thesis by auto
qed

lemma mergeLoop_subset:
  "mergeLoop prio merged ps = Inr out \<Longrightarrow> set out \<subseteq> set merged \<union> set ps"
proof (induction ps arbitrary: merged)
  case Nil
  then show ?case by simp
next
  case (Cons p ps)
  from Cons.prems obtain merged' where m: "mergePoint prio merged p = Inr merged'"
    and rest: "mergeLoop prio merged' ps = Inr out"
    by (cases "mergePoint prio merged p") simp_all
  from Cons.IH [OF rest] mergePoint_subset [OF m] show ?case by auto
qed

lemma mergeLoop_nonOverlapping:
  assumes "nonOverlapping merged" "sorted (map start ps)"
    and "\<forall>e\<in>set merged. \<forall>p\<in>set ps. start e \<le> start p"
    and "mergeLoop prio merged ps = Inr out"
  shows "nonOverlapping out"
  using assms
proof (induction ps arbitrary: merged)
  case Nil
  then show ?case by simp
next
  case (Cons p ps)
  from Cons.prems(4) obtain merged' where m: "mergePoint prio merged p = Inr merged'"
    and rest: "mergeLoop prio merged' ps = Inr out"
    by (cases "mergePoint prio merged p") simp_all
  from Cons.prems(3) have before: "\<forall>e\<in>set merged. start e \<le> start p" by simp
  from Cons.prems(2) have srt: "sorted (map start ps)" "\<forall>q\<in>set ps. start p \<le> start q"
    by simp_all
  have no': "nonOverlapping merged'"
    using Cons.prems(1) before m by (rule mergePoint_nonOverlapping)
  have later: "\<forall>e\<in>set merged'. \<forall>q\<in>set ps. start e \<le> start q"
  proof (intro ballI)
    fix e q
    assume e: "e \<in> set merged'" and q: "q \<in> set ps"
    from e mergePoint_subset [OF m] have "e = p \<or> e \<in> set merged" by blast
    then show "start e \<le> start q"
    proof
      assume "e = p"
      with srt(2) q show ?thesis by simp
    next
      assume "e \<in> set merged"
      with Cons.prems(3) q show ?thesis by simp
    qed
  qed
  from no' srt(1) later rest show ?case by (rule Cons.IH)
qed

lemma mergePoint_answered:
  assumes "readProperty prio (source p) \<noteq> Undefined"
    and "\<forall>e\<in>set merged. readProperty prio (source e) \<noteq> Undefined"
  shows "\<exists>merged'. mergePoint prio merged p = Inr merged'"
proof (cases "findIndex (overlaps p) merged")
  case None
  then show ?thesis by (simp add: mergePoint_def)
next
  case (Some k)
  from findIndex_Some [OF Some] have "merged ! k \<in> set merged" by simp
  with assms(2) have "readProperty prio (source (merged ! k)) \<noteq> Undefined" by blast
  with assms(1) Some show ?thesis by (simp add: mergePoint_def Let_def)
qed

lemma mergeLoop_answered:
  assumes "\<forall>p\<in>set ps. readProperty prio (source p) \<noteq> Undefined"
    and "\<forall>e\<in>set merged. readProperty prio (source e) \<noteq> Undefined"
  shows "\<exists>out. mergeLoop prio merged ps = Inr out"
  using assms
proof (induction ps arbitrary: merged)
  case Nil
  then show ?case by simp
next
  case (Cons p ps)
  from mergePoint_answered [of prio p merged] Cons.prems
  obtain merged' where m: "mergePoint prio merged p = Inr merged'" by auto
  with mergePoint_subset [OF m] Cons.prems
  have "\<forall>e\<in>set merged'. readProperty prio (source e) \<noteq> Undefined"
    by auto
  with Cons.IH [of merged'] Cons.prems(1) m show ?case by simp
qed

lemma mergeLoop_succeeds:
  assumes "\<forall>p\<in>set ps. source p \<in> dom prio" "\<forall>e\<in>set merged. source e \<in> dom prio"
  shows "\<exists>out. mergeLoop prio merged ps = Inr out"
  using assms by (intro mergeLoop_answered) (simp_all add: readProperty_dom)

section \<open>Non-overlap of the merged output\<close>

text \<open>
  C1. Whenever the priority lookup is defined on the source of every input point, the merge
  returns a list (it does not raise), and no two entries of that list, at different
  positions, overlap, where a point overlaps another iff it starts no later than the other
  ends and ends no earlier than the other starts (so touching intervals overlap).
\<close>

theorem merge_output_non_overlapping:
  assumes "\<forall>p\<in>set dataPoints. source p \<in> dom providerPriorities"
  shows "\<exists>out. mergeDataPoints dataPoints providerPriorities = Inr out \<and>
           (\<forall>i<length out. \<forall>j<length out. i \<noteq> j \<longrightarrow> \<not> overlaps (out ! i) (out ! j))"
proof (cases "dataPoints = []")
  case True
  then show ?thesis by (simp add: mergeDataPoints_def)
next
  case False
  from assms have "\<forall>p\<in>set (sort_key start dataPoints). source p \<in> dom providerPriorities"
    by simp
  from mergeLoop_succeeds [OF this, of "[]"]
  obtain out where out: "mergeLoop providerPriorities [] (sort_key start dataPoints) = Inr out"
    by auto
  have "nonOverlapping out"
    by (rule mergeLoop_nonOverlapping [OF _ _ _ out]) (simp_all add: nonOverlapping_def)
  with out False show ?thesis by (simp add: mergeDataPoints_def nonOverlapping_def)
qed

theorem merge_output_non_overlapping_witness:
  "\<exists>out. mergeDataPoints scenarioA prioritiesAB = Inr out \<and>
     (\<forall>i<length out. \<forall>j<length out. i \<noteq> j \<longrightarrow> \<not> overlaps (out ! i) (out ! j))"
proof -
  have h: "\<forall>p\<in>set scenarioA. source p \<in> dom prioritiesAB"
    by (simp add: scenarioA_def prioritiesAB_def)
  from merge_output_non_overlapping [OF h] show ?thesis .
qed

lemma mergeLoop_append:
  "mergeLoop prio merged (xs @ ys) =
     (case mergeLoop prio merged xs of Inl e \<Rightarrow> Inl e | Inr merged' \<Rightarrow> mergeLoop prio merged' ys)"
  by (induction xs arbitrary: merged) (simp_all split: sum.splits)

section \<open>Missing priorities\<close>

text \<open>
  When the loop reaches a point of the sorted input that overlaps an entry of the output
  built so far, and the source of the point or of that entry is neither an own property of
  the lookup nor the name of a member of \<^verbatim>\<open>Object.prototype\<close>, the merge raises
  PRIORITY_ERROR: the result is the error, not a list, so no later point is merged and
  nothing built so far is returned.
\<close>

lemma merge_priority_error:
  assumes "sort_key start dataPoints = before @ point # remaining"
    and "mergeLoop providerPriorities [] before = Inr merged"
    and "findIndex (overlaps point) merged = Some index"
    and "providerPriorities (source point) = None \<and>
           map_of objectPrototype (source point) = None \<or>
         providerPriorities (source (merged ! index)) = None \<and>
           map_of objectPrototype (source (merged ! index)) = None"
  shows "mergeDataPoints dataPoints providerPriorities =
           Inl (HealthDataError PRIORITY_ERROR ''Provider priority not found'')"
proof -
  from assms(1) have ne: "dataPoints \<noteq> []" by auto
  from assms(4) have "readProperty providerPriorities (source point) = Undefined \<or>
      readProperty providerPriorities (source (merged ! index)) = Undefined"
    by (auto simp: readProperty_def)
  with assms(3) have "mergePoint providerPriorities merged point =
      Inl (HealthDataError PRIORITY_ERROR ''Provider priority not found'')"
    by (auto simp: mergePoint_def Let_def)
  with assms(1,2) ne show ?thesis
    by (simp add: mergeDataPoints_def mergeLoop_append)
qed

lemma merge_priority_error_scenarioA:
  "mergeDataPoints scenarioA prioritiesA =
     Inl (HealthDataError PRIORITY_ERROR ''Provider priority not found'')"
proof -
  have 1: "sort_key start scenarioA = [scenarioA ! 0] @ (scenarioA ! 1) # []"
    by (simp add: scenarioA_def)
  have 2: "mergeLoop prioritiesA [] [scenarioA ! 0] = Inr [scenarioA ! 0]"
    by (simp add: mergePoint_def)
  have 3: "findIndex (overlaps (scenarioA ! 1)) [scenarioA ! 0] = Some 0"
    by (simp add: scenarioA_def overlaps_def)
  have 4: "prioritiesA (source (scenarioA ! 1)) = None \<and>
             map_of objectPrototype (source (scenarioA ! 1)) = None \<or>
           prioritiesA (source ([scenarioA ! 0] ! 0)) = None \<and>
             map_of objectPrototype (source ([scenarioA ! 0] ! 0)) = None"
    by (simp add: scenarioA_def prioritiesA_def objectPrototype_def)
  from merge_priority_error [OF 1 2 3 4] show ?thesis .
qed

text \<open>
  C4. The merge is to fail with PRIORITY_ERROR when it reaches a point that overlaps an output
  entry and either source is absent from the lookup. The code does not: the lookup has no
  entry for the source \<^verbatim>\<open>toString\<close>, the second point overlaps the first, and yet the merge
  returns the first point alone. The read of the absent id finds the inherited function, which is not
  \<^verbatim>\<open>undefined\<close>, and compared with a number it is not greater.
\<close>

theorem merge_prototype_key_no_error:
  "prioritiesA (source (prototypeNamedPoints ! 1)) = None \<and>
   overlaps (prototypeNamedPoints ! 1) (prototypeNamedPoints ! 0) \<and>
   mergeDataPoints prototypeNamedPoints prioritiesA = Inr [prototypeNamedPoints ! 0]"
  by (simp add: prototypeNamedPoints_def prioritiesA_def overlaps_def mergeDataPoints_def
      mergePoint_def readProperty_def objectPrototype_def)

section \<open>Priority between overlapping points\<close>

lemma dominated_mono: "set points \<subseteq> set points' \<Longrightarrow> dominated prio points p \<Longrightarrow> dominated prio points' p"
  unfolding dominated_def by blast

lemma in_set_update_cases: "p \<in> set xs \<Longrightarrow> k < length xs \<Longrightarrow> p \<in> set (xs[k := x]) \<or> p = xs ! k"
proof -
  assume "p \<in> set xs" and k: "k < length xs"
  then obtain i where i: "i < length xs" "xs ! i = p" by (auto simp: in_set_conv_nth)
  show ?thesis
  proof (cases "i = k")
    case True
    with i show ?thesis by simp
  next
    case False
    with i have "xs[k := x] ! i = p" "i < length (xs[k := x])" by simp_all
    then have "p \<in> set (xs[k := x])" by (metis nth_mem)
    then show ?thesis ..
  qed
qed

lemma mergePoint_dominance:
  assumes inv: "\<forall>p\<in>set done. p \<in> set merged \<or> dominated prio done p"
    and sub: "set merged \<subseteq> set done"
    and le: "\<forall>e\<in>set merged. start e \<le> start x"
    and src: "\<forall>p\<in>set (x # done). source p \<in> dom prio"
    and m: "mergePoint prio merged x = Inr merged'"
  shows "\<forall>p\<in>set (done @ [x]). p \<in> set merged' \<or> dominated prio (done @ [x]) p"
proof (cases "findIndex (overlaps x) merged")
  case None
  with m have "merged' = merged @ [x]" by (simp add: mergePoint_def)
  with inv show ?thesis by (auto intro: dominated_mono [of "done"])
next
  case (Some k)
  from findIndex_Some [OF Some] have k: "k < length merged" "overlaps x (merged ! k)" by auto
  let ?e = "merged ! k"
  from k(1) sub have e: "?e \<in> set merged" "?e \<in> set done" by auto
  from src e(2) obtain a b where ab: "prio (source x) = Some a" "prio (source ?e) = Some b"
    by auto
  from mergePoint_own [OF Some ab] m
  have merged': "merged' = (if b < a then merged[k := x] else merged)" by simp
  from k(2) have ov: "overlaps ?e x" by (simp add: overlaps_def)
  show ?thesis
  proof (cases "b < a")
    case False
    with merged' have eq: "merged' = merged" by simp
    have "x \<in> set merged \<or> dominated prio (done @ [x]) x"
    proof (cases "x \<in> set merged")
      case True
      then show ?thesis ..
    next
      case no: False
      with e(1) have "?e \<noteq> x" by auto
      moreover from le e(1) have "start ?e \<le> start x" by simp
      ultimately have "dominated prio (done @ [x]) x"
        unfolding dominated_def using e(2) ov ab False
        by (intro bexI [of _ ?e]) auto
      then show ?thesis ..
    qed
    with inv eq show ?thesis by (auto intro: dominated_mono [of "done"])
  next
    case True
    with merged' have eq: "merged' = merged[k := x]" by simp
    from True ab have ne: "x \<noteq> ?e" by auto
    have dom_e: "dominated prio (done @ [x]) ?e"
      unfolding dominated_def using k(2) ab True ne
      by (intro bexI [of _ x]) auto
    have "p \<in> set merged' \<or> dominated prio (done @ [x]) p" if p: "p \<in> set done" for p
    proof -
      from inv p have "p \<in> set merged \<or> dominated prio done p" by blast
      then show ?thesis
      proof
        assume "p \<in> set merged"
        from in_set_update_cases [OF this k(1), of x] eq dom_e show ?thesis by auto
      next
        assume "dominated prio done p"
        then have "dominated prio (done @ [x]) p" by (rule dominated_mono [rotated]) auto
        then show ?thesis ..
      qed
    qed
    moreover from k(1) eq have "x \<in> set merged'" by (simp add: set_update_memI)
    ultimately show ?thesis by auto
  qed
qed

lemma mergeLoop_dominance:
  assumes "\<forall>p\<in>set done. p \<in> set merged \<or> dominated prio done p"
    and "set merged \<subseteq> set done"
    and "sorted (map start ps)"
    and "\<forall>e\<in>set merged. \<forall>p\<in>set ps. start e \<le> start p"
    and "\<forall>p\<in>set (done @ ps). source p \<in> dom prio"
    and "mergeLoop prio merged ps = Inr out"
  shows "\<forall>p\<in>set (done @ ps). p \<in> set out \<or> dominated prio (done @ ps) p"
  using assms
proof (induction ps arbitrary: merged "done")
  case Nil
  then show ?case by simp
next
  case (Cons x ps)
  from Cons.prems(6) obtain merged' where m: "mergePoint prio merged x = Inr merged'"
    and rest: "mergeLoop prio merged' ps = Inr out"
    by (cases "mergePoint prio merged x") simp_all
  from Cons.prems(4) have before: "\<forall>e\<in>set merged. start e \<le> start x" by simp
  from Cons.prems(3) have srt: "sorted (map start ps)" "\<forall>q\<in>set ps. start x \<le> start q"
    by simp_all
  from Cons.prems(5) have src: "\<forall>p\<in>set (x # done). source p \<in> dom prio"
    and src': "\<forall>p\<in>set ((done @ [x]) @ ps). source p \<in> dom prio"
    by auto
  have inv': "\<forall>p\<in>set (done @ [x]). p \<in> set merged' \<or> dominated prio (done @ [x]) p"
    using Cons.prems(1,2) before src m by (rule mergePoint_dominance)
  have sub': "set merged' \<subseteq> set (done @ [x])"
    using mergePoint_subset [OF m] Cons.prems(2) by auto
  have later: "\<forall>e\<in>set merged'. \<forall>q\<in>set ps. start e \<le> start q"
  proof (intro ballI)
    fix e q
    assume e: "e \<in> set merged'" and q: "q \<in> set ps"
    from e mergePoint_subset [OF m] have "e = x \<or> e \<in> set merged" by blast
    then show "start e \<le> start q"
    proof
      assume "e = x"
      with srt(2) q show ?thesis by simp
    next
      assume "e \<in> set merged"
      with Cons.prems(4) q show ?thesis by simp
    qed
  qed
  from Cons.IH [OF inv' sub' srt(1) later src' rest] show ?case by simp
qed

lemma merge_two_points:
  assumes "overlaps a b" "prio (source a) = Some pa" "prio (source b) = Some pb"
  shows "mergeDataPoints [a, b] prio =
           Inr [if pb < pa then a else if pa < pb then b else if start a \<le> start b then a else b]"
proof (cases "start a \<le> start b")
  case True
  then have s: "sort_key start [a, b] = [a, b]" by simp
  from assms(1) have "findIndex (overlaps b) [a] = Some 0"
    by (simp add: overlaps_def)
  from mergePoint_own [OF this, of prio pb pa] assms(2,3)
  have "mergePoint prio [a] b = Inr (if pa < pb then [b] else [a])" by simp
  moreover have "mergePoint prio [] a = Inr [a]" by (simp add: mergePoint_def)
  ultimately show ?thesis using True s by (simp add: mergeDataPoints_def)
next
  case False
  then have s: "sort_key start [a, b] = [b, a]" by simp
  from assms(1) have "findIndex (overlaps a) [b] = Some 0"
    by simp
  from mergePoint_own [OF this, of prio pa pb] assms(2,3)
  have "mergePoint prio [b] a = Inr (if pb < pa then [a] else [b])" by simp
  moreover have "mergePoint prio [] b = Inr [b]" by (simp add: mergePoint_def)
  ultimately show ?thesis using False s by (simp add: mergeDataPoints_def)
qed

text \<open>
  C2 (amended). For every input whose sources are all in the lookup, the merge returns a list
  of input points, and every input point that is missing from it is overlapped by another
  input point whose source has strictly greater priority, or the same priority and a start
  no later. For an input of exactly two overlapping points the output is the single point
  whose source has the strictly greater priority; on equal priorities it is the point that
  starts earlier, and on equal starts the one that comes first in the input. Touching
  intervals overlap, so this covers them.
\<close>

theorem merge_priority_dominance:
  assumes "\<forall>p\<in>set dataPoints. source p \<in> dom providerPriorities"
  shows "\<exists>out. mergeDataPoints dataPoints providerPriorities = Inr out \<and>
           set out \<subseteq> set dataPoints \<and>
           (\<forall>p\<in>set dataPoints. p \<notin> set out \<longrightarrow>
              (\<exists>q\<in>set dataPoints. q \<noteq> p \<and> overlaps q p \<and>
                 (\<exists>a b. providerPriorities (source q) = Some a \<and>
                        providerPriorities (source p) = Some b \<and>
                        (b < a \<or> b = a \<and> start q \<le> start p)))) \<and>
           (\<forall>a b pa pb. dataPoints = [a, b] \<and> overlaps a b \<and>
                providerPriorities (source a) = Some pa \<and>
                providerPriorities (source b) = Some pb \<longrightarrow>
              out = [if pb < pa then a else if pa < pb then b
                     else if start a \<le> start b then a else b])"
proof (cases "dataPoints = []")
  case True
  then show ?thesis by (simp add: mergeDataPoints_def)
next
  case False
  let ?sorted = "sort_key start dataPoints"
  from assms have src: "\<forall>p\<in>set ([] @ ?sorted). source p \<in> dom providerPriorities" by simp
  then have "\<forall>p\<in>set ?sorted. source p \<in> dom providerPriorities" by simp
  from mergeLoop_succeeds [OF this, of "[]"]
  obtain out where out: "mergeLoop providerPriorities [] ?sorted = Inr out" by auto
  with False have res: "mergeDataPoints dataPoints providerPriorities = Inr out"
    by (simp add: mergeDataPoints_def)
  from mergeLoop_subset [OF out] have sub: "set out \<subseteq> set dataPoints" by simp
  have "\<forall>p\<in>set ([] @ ?sorted). p \<in> set out \<or> dominated providerPriorities ([] @ ?sorted) p"
    by (rule mergeLoop_dominance [OF _ _ _ _ src out]) simp_all
  then have dom: "\<forall>p\<in>set dataPoints. p \<notin> set out \<longrightarrow> dominated providerPriorities dataPoints p"
    by (auto intro: dominated_mono [of ?sorted])
  have two: "out = [if pb < pa then a else if pa < pb then b
                    else if start a \<le> start b then a else b]"
    if "dataPoints = [a, b]" "overlaps a b" "providerPriorities (source a) = Some pa"
      "providerPriorities (source b) = Some pb" for a b pa pb
    using merge_two_points [OF that(2,3,4)] res that(1) by simp
  from res sub dom two show ?thesis
    unfolding dominated_def by blast
qed

theorem merge_priority_dominance_witness:
  "(\<exists>out. mergeDataPoints threePoints prioritiesABC = Inr out \<and>
      set out \<subseteq> set threePoints \<and>
      (\<forall>p\<in>set threePoints. p \<notin> set out \<longrightarrow>
         (\<exists>q\<in>set threePoints. q \<noteq> p \<and> overlaps q p \<and>
            (\<exists>a b. prioritiesABC (source q) = Some a \<and> prioritiesABC (source p) = Some b \<and>
               (b < a \<or> b = a \<and> start q \<le> start p))))) \<and>
   mergeDataPoints scenarioB prioritiesAB = Inr [scenarioB ! 0]"
proof -
  have 1: "\<forall>p\<in>set threePoints. source p \<in> dom prioritiesABC"
    by (simp add: threePoints_def prioritiesABC_def)
  have 2: "\<forall>p\<in>set scenarioB. source p \<in> dom prioritiesAB"
    by (simp add: scenarioB_def prioritiesAB_def)
  have l: "scenarioB = [scenarioB ! 0, scenarioB ! 1]"
    by (simp add: scenarioB_def)
  have o: "overlaps (scenarioB ! 0) (scenarioB ! 1)"
    by (simp add: scenarioB_def overlaps_def)
  have a: "prioritiesAB (source (scenarioB ! 0)) = Some 10"
    by (simp add: scenarioB_def prioritiesAB_def)
  have b: "prioritiesAB (source (scenarioB ! 1)) = Some 0"
    by (simp add: scenarioB_def prioritiesAB_def)
  from merge_priority_dominance [OF 2] obtain out
    where out: "mergeDataPoints scenarioB prioritiesAB = Inr out"
      and two: "\<forall>a b pa pb. scenarioB = [a, b] \<and> overlaps a b \<and>
                prioritiesAB (source a) = Some pa \<and> prioritiesAB (source b) = Some pb \<longrightarrow>
              out = [if pb < pa then a else if pa < pb then b
                     else if start a \<le> start b then a else b]"
    by blast
  from two l o a b have "out = [if (0::int) < 10 then scenarioB ! 0 else if (10::int) < 0 then scenarioB ! 1
       else if start (scenarioB ! 0) \<le> start (scenarioB ! 1) then scenarioB ! 0 else scenarioB ! 1]"
    by blast
  with out have B: "mergeDataPoints scenarioB prioritiesAB = Inr [scenarioB ! 0]" by simp
  from merge_priority_dominance [OF 1] have A: "\<exists>out. mergeDataPoints threePoints prioritiesABC = Inr out \<and>
      set out \<subseteq> set threePoints \<and>
      (\<forall>p\<in>set threePoints. p \<notin> set out \<longrightarrow>
         (\<exists>q\<in>set threePoints. q \<noteq> p \<and> overlaps q p \<and>
            (\<exists>a b. prioritiesABC (source q) = Some a \<and> prioritiesABC (source p) = Some b \<and>
               (b < a \<or> b = a \<and> start q \<le> start p))))"
    by blast
  from A B show ?thesis by blast
qed

text \<open>
  The pairwise statement itself fails with a third point: the first and the third point
  overlap and the first has the greater priority, yet the output keeps the third and not the
  first, because the second point replaced the first before the third was reached.
\<close>


theorem merge_pair_priority_counterexample:
  "overlaps (threePoints ! 0) (threePoints ! 2) \<and>
   prioritiesABC (source (threePoints ! 0)) = Some 5 \<and>
   prioritiesABC (source (threePoints ! 2)) = Some 1 \<and>
   mergeDataPoints threePoints prioritiesABC = Inr [threePoints ! 1, threePoints ! 2] \<and>
   threePoints ! 0 \<notin> set [threePoints ! 1, threePoints ! 2]"
  by (simp add: threePoints_def prioritiesABC_def overlaps_def mergeDataPoints_def mergePoint_def
      readProperty_def)

section \<open>Merging a merged list with itself\<close>

lemma chain_snoc:
  "chain (xs @ [p]) \<longleftrightarrow> chain xs \<and> (\<forall>e\<in>set xs. end' e < start p)"
  by (auto simp: chain_def sorted_wrt_append)

lemma chain_nth: "chain xs \<Longrightarrow> i < j \<Longrightarrow> j < length xs \<Longrightarrow> end' (xs ! i) < start (xs ! j)"
  by (simp add: chain_def sorted_wrt_iff_nth_less)

lemma chain_update_last:
  assumes c: "chain merged" and k: "k < length merged"
    and le: "\<forall>e\<in>set merged. start e \<le> start p"
    and o: "start p \<le> end' (merged ! k)"
  shows "chain (merged[k := p])"
proof -
  have last: "Suc k = length merged"
  proof (rule ccontr)
    assume "Suc k \<noteq> length merged"
    with k have j: "Suc k < length merged" by simp
    from chain_nth [OF c _ j] have "end' (merged ! k) < start (merged ! Suc k)" by simp
    moreover from le j have "start (merged ! Suc k) \<le> start p" by simp
    ultimately show False using o by simp
  qed
  show ?thesis
    unfolding chain_def sorted_wrt_iff_nth_less
  proof (intro allI impI)
    fix i j
    assume ij: "i < j" "j < length (merged[k := p])"
    show "end' (merged[k := p] ! i) < start (merged[k := p] ! j)"
    proof (cases "j = k")
      case True
      with ij k have "end' (merged ! i) < start (merged ! k)"
        by (intro chain_nth [OF c]) simp_all
      moreover from le k have "start (merged ! k) \<le> start p" by simp
      ultimately show ?thesis using True ij by simp
    next
      case False
      with ij last have "i \<noteq> k" "j < length merged" by simp_all
      with False ij chain_nth [OF c, of i j] show ?thesis by simp
    qed
  qed
qed

lemma mergePoint_chain:
  assumes "chain merged" "wellFormed p" "\<forall>e\<in>set merged. start e \<le> start p"
    and "mergePoint prio merged p = Inr merged'"
  shows "chain merged'"
proof (cases "findIndex (overlaps p) merged")
  case None
  with assms(4) have m: "merged' = merged @ [p]" by (simp add: mergePoint_def)
  have "end' e < start p" if "e \<in> set merged" for e
  proof -
    from None that have "\<not> overlaps p e" by (simp add: findIndex_None)
    moreover from assms(3) that have "start e \<le> start p" by simp
    ultimately show ?thesis using assms(2) by (auto simp: overlaps_def wellFormed_def)
  qed
  with assms(1) m show ?thesis by (simp add: chain_snoc)
next
  case (Some k)
  from findIndex_Some [OF Some] have k: "k < length merged" "start p \<le> end' (merged ! k)"
    by (auto simp: overlaps_def)
  from mergePoint_cases [OF assms(4) Some] have "merged' = merged \<or> merged' = merged[k := p]" .
  with assms(1,3) k show ?thesis by (auto intro: chain_update_last)
qed

lemma mergeLoop_chain:
  assumes "chain merged" "sorted (map start ps)" "\<forall>p\<in>set ps. wellFormed p"
    and "\<forall>e\<in>set merged. \<forall>p\<in>set ps. start e \<le> start p"
    and "mergeLoop prio merged ps = Inr out"
  shows "chain out"
  using assms
proof (induction ps arbitrary: merged)
  case Nil
  then show ?case by simp
next
  case (Cons p ps)
  from Cons.prems(5) obtain merged' where m: "mergePoint prio merged p = Inr merged'"
    and rest: "mergeLoop prio merged' ps = Inr out"
    by (cases "mergePoint prio merged p") simp_all
  from Cons.prems(4) have before: "\<forall>e\<in>set merged. start e \<le> start p" by simp
  from Cons.prems(2) have srt: "sorted (map start ps)" "\<forall>q\<in>set ps. start p \<le> start q"
    by simp_all
  from Cons.prems(3) have wf: "wellFormed p" "\<forall>q\<in>set ps. wellFormed q" by simp_all
  have c': "chain merged'"
    using Cons.prems(1) wf(1) before m by (rule mergePoint_chain)
  have later: "\<forall>e\<in>set merged'. \<forall>q\<in>set ps. start e \<le> start q"
  proof (intro ballI)
    fix e q
    assume e: "e \<in> set merged'" and q: "q \<in> set ps"
    from e mergePoint_subset [OF m] have "e = p \<or> e \<in> set merged" by blast
    then show "start e \<le> start q"
    proof
      assume "e = p"
      with srt(2) q show ?thesis by simp
    next
      assume "e \<in> set merged"
      with Cons.prems(4) q show ?thesis by simp
    qed
  qed
  from c' srt(1) wf(2) later rest show ?case by (rule Cons.IH)
qed

lemma insort_key_after_smaller:
  "\<forall>y\<in>set pre. f y < f x \<Longrightarrow> insort_key f x (pre @ zs) = pre @ insort_key f x zs"
  by (induction pre) auto

lemma foldr_insort_twice:
  "sorted_wrt (\<lambda>a b. f a < f b) (pre @ xs) \<Longrightarrow>
     foldr (insort_key f) xs (pre @ xs) = pre @ twice xs"
proof (induction xs arbitrary: pre)
  case Nil
  then show ?case by (simp add: twice_def)
next
  case (Cons x xs)
  from Cons.prems have s: "sorted_wrt (\<lambda>a b. f a < f b) ((pre @ [x]) @ xs)" by simp
  from Cons.prems have small: "\<forall>y\<in>set pre. f y < f x" by (simp add: sorted_wrt_append)
  have "foldr (insort_key f) (x # xs) (pre @ x # xs) =
          insort_key f x (foldr (insort_key f) xs ((pre @ [x]) @ xs))" by simp
  also have "\<dots> = insort_key f x ((pre @ [x]) @ twice xs)"
    using Cons.IH [OF s] by simp
  also have "\<dots> = pre @ insort_key f x (x # twice xs)"
    using insort_key_after_smaller [OF small, of "x # twice xs"] by simp
  also have "\<dots> = pre @ twice (x # xs)" by (simp add: twice_def)
  finally show ?case .
qed

lemma sort_key_twice:
  assumes "sorted_wrt (\<lambda>a b. f a < f b) xs"
  shows "sort_key f (xs @ xs) = twice xs"
proof -
  from assms have "sorted (map f xs)"
    by (simp add: sorted_map) (erule sorted_wrt_mono_rel [rotated], simp)
  then have "sort_key f xs = xs" by (rule sort_key_id_if_sorted)
  then have "sort_key f (xs @ xs) = foldr (insort_key f) xs ([] @ xs)"
    by (simp add: sort_key_def)
  also have "\<dots> = [] @ twice xs" using assms by (intro foldr_insort_twice) simp
  finally show ?thesis by simp
qed

lemma chain_starts_increase:
  assumes "chain xs" "\<forall>p\<in>set xs. wellFormed p"
  shows "sorted_wrt (\<lambda>a b. start a < start b) xs"
proof -
  have "sorted_wrt (\<lambda>a b. end' a < start b) xs" using assms(1) by (simp add: chain_def)
  then show ?thesis
  proof (rule sorted_wrt_mono_rel [rotated])
    fix a b
    assume "a \<in> set xs" "b \<in> set xs" "end' a < start b"
    with assms(2) show "start a < start b" by (auto simp: wellFormed_def)
  qed
qed

lemma findIndex_snoc_last:
  "\<forall>x\<in>set xs. \<not> P x \<Longrightarrow> P y \<Longrightarrow> findIndex P (xs @ [y]) = Some (length xs)"
  by (induction xs) simp_all

lemma mergeLoop_twice:
  assumes "chain (acc @ ys)" "\<forall>p\<in>set ys. wellFormed p" "\<forall>p\<in>set ys. source p \<in> dom prio"
  shows "mergeLoop prio acc (twice ys) = Inr (acc @ ys)"
  using assms
proof (induction ys arbitrary: acc)
  case Nil
  then show ?case by (simp add: twice_def)
next
  case (Cons y ys)
  from Cons.prems(1) have c: "chain ((acc @ [y]) @ ys)" by simp
  then have "chain (acc @ [y])" by (simp add: chain_def sorted_wrt_append)
  then have before: "\<forall>e\<in>set acc. end' e < start y" by (simp add: chain_snoc)
  then have none: "\<forall>e\<in>set acc. \<not> overlaps y e" by (auto simp: overlaps_def)
  from Cons.prems(2) have self: "overlaps y y" by (simp add: overlaps_def wellFormed_def)
  from Cons.prems(3) obtain py where py: "prio (source y) = Some py" by auto
  from none have 1: "mergePoint prio acc y = Inr (acc @ [y])"
    by (simp add: mergePoint_def findIndex_None [THEN iffD2])
  from none self have "findIndex (overlaps y) (acc @ [y]) = Some (length acc)"
    by (rule findIndex_snoc_last)
  with py have 2: "mergePoint prio (acc @ [y]) y = Inr (acc @ [y])"
    by (simp add: mergePoint_own)
  have "mergeLoop prio acc (twice (y # ys)) = mergeLoop prio (acc @ [y]) (twice ys)"
    using 1 2 by (simp add: twice_def)
  also have "\<dots> = Inr ((acc @ [y]) @ ys)"
    using c Cons.prems(2,3) by (intro Cons.IH) simp_all
  finally show ?case by simp
qed

text \<open>
  C3 (amended). For every input whose points all have start \<le> end and a source in the
  priority lookup, the merge returns a list, and merging that list concatenated with itself
  under the same lookup returns the same list.
\<close>


theorem merge_idempotent:
  assumes "\<forall>p\<in>set dataPoints. start p \<le> end' p"
    and "\<forall>p\<in>set dataPoints. source p \<in> dom providerPriorities"
  shows "\<exists>out. mergeDataPoints dataPoints providerPriorities = Inr out \<and>
           mergeDataPoints (out @ out) providerPriorities = Inr out"
proof (cases "dataPoints = []")
  case True
  then show ?thesis by (simp add: mergeDataPoints_def)
next
  case False
  let ?sorted = "sort_key start dataPoints"
  from assms(2) have "\<forall>p\<in>set ?sorted. source p \<in> dom providerPriorities" by simp
  from mergeLoop_succeeds [OF this, of "[]"]
  obtain out where out: "mergeLoop providerPriorities [] ?sorted = Inr out" by auto
  from mergeLoop_subset [OF out] have sub: "set out \<subseteq> set dataPoints" by simp
  from assms(1) have wf: "\<forall>p\<in>set ?sorted. wellFormed p" by (simp add: wellFormed_def)
  have c: "chain out"
    by (rule mergeLoop_chain [OF _ _ wf _ out]) (simp_all add: chain_def)
  from sub assms have wfo: "\<forall>p\<in>set out. wellFormed p"
    and src: "\<forall>p\<in>set out. source p \<in> dom providerPriorities"
    by (auto simp: wellFormed_def)
  from chain_starts_increase [OF c wfo] have "sort_key start (out @ out) = twice out"
    by (rule sort_key_twice)
  moreover from c wfo src have "mergeLoop providerPriorities [] (twice out) = Inr ([] @ out)"
    by (intro mergeLoop_twice) simp_all
  ultimately have "mergeDataPoints (out @ out) providerPriorities = Inr out"
    by (simp add: mergeDataPoints_def)
  with out False show ?thesis by (simp add: mergeDataPoints_def)
qed

theorem merge_idempotent_witness:
  "\<exists>out. mergeDataPoints scenarioA prioritiesAB = Inr out \<and>
         mergeDataPoints (out @ out) prioritiesAB = Inr out"
proof -
  have 1: "\<forall>p\<in>set scenarioA. start p \<le> end' p" by (simp add: scenarioA_def)
  have 2: "\<forall>p\<in>set scenarioA. source p \<in> dom prioritiesAB"
    by (simp add: scenarioA_def prioritiesAB_def)
  from merge_idempotent [OF 1 2] show ?thesis .
qed

text \<open>
  Both conditions are needed. A single point of an unknown source merges (nothing overlaps
  it), but merged with itself it overlaps its copy and the lookup fails. A point that ends
  before it starts does not overlap its copy, so both copies are kept.
\<close>


theorem merge_idempotent_counterexample:
  "mergeDataPoints [unknownSourcePoint] prioritiesAB = Inr [unknownSourcePoint] \<and>
   mergeDataPoints ([unknownSourcePoint] @ [unknownSourcePoint]) prioritiesAB =
     Inl (HealthDataError PRIORITY_ERROR ''Provider priority not found'') \<and>
   mergeDataPoints [reversedPoint] prioritiesAB = Inr [reversedPoint] \<and>
   mergeDataPoints ([reversedPoint] @ [reversedPoint]) prioritiesAB =
     Inr [reversedPoint, reversedPoint]"
  by (simp add: unknownSourcePoint_def reversedPoint_def prioritiesAB_def overlaps_def
      mergeDataPoints_def mergePoint_def readProperty_def objectPrototype_def)

section \<open>Notification of listeners\<close>

lemma notifyLoop_eq:
  "notifyLoop callbacks metric data log =
     (case findIndex (\<lambda>callback. callbackRun callback metric data \<noteq> None) callbacks of
        None \<Rightarrow> (None, log @ calls metric data callbacks)
      | Some k \<Rightarrow>
          (callbackRun (callbacks ! k) metric data,
           log @ calls metric data (take (Suc k) callbacks)))"
proof (induction callbacks arbitrary: log)
  case Nil
  then show ?case by (simp add: calls_def)
next
  case (Cons callback rest)
  show ?case
  proof (cases "callbackRun callback metric data")
    case None
    then show ?thesis
      by (simp add: Cons.IH calls_def split: option.splits)
  next
    case (Some error)
    then show ?thesis by (simp add: calls_def)
  qed
qed

lemma subscribe_all:
  "distinct (map callbackRef (dataCallbacks s @ callbacks)) \<Longrightarrow>
     foldl subscribeToProviderUpdates s callbacks =
       s\<lparr>dataCallbacks := dataCallbacks s @ callbacks\<rparr>"
proof (induction callbacks arbitrary: s)
  case Nil
  then show ?case by simp
next
  case (Cons callback rest)
  from Cons.prems have new: "callbackRef callback \<notin> callbackRef ` set (dataCallbacks s)"
    by auto
  then have step: "subscribeToProviderUpdates s callback =
      s\<lparr>dataCallbacks := dataCallbacks s @ [callback]\<rparr>"
    by (simp add: subscribeToProviderUpdates_def)
  from Cons.prems have "distinct (map callbackRef
      (dataCallbacks (s\<lparr>dataCallbacks := dataCallbacks s @ [callback]\<rparr>) @ rest))"
    by simp
  from Cons.IH [OF this] step show ?case by simp
qed

text \<open>
  C5 (amended). After the listeners \<open>callbacks\<close> (distinct function objects) have been
  registered in turn on a manager without listeners, a notification calls them in
  registration order up to and including the first one that throws. What that listener
  throws is the outcome of the notification, and the listeners registered after it are not
  called. When no listener throws, every listener is called, once, in registration order.
\<close>

theorem notify_until_first_throw:
  assumes "dataCallbacks s0 = []" "distinct (map callbackRef callbacks)"
    and "s = foldl subscribeToProviderUpdates s0 callbacks"
  shows "notifyCallbacks s metric data =
     (case findIndex (\<lambda>callback. callbackRun callback metric data \<noteq> None) callbacks of
        None \<Rightarrow> (None, s\<lparr>effects := effects s @ calls metric data callbacks\<rparr>)
      | Some k \<Rightarrow>
          (callbackRun (callbacks ! k) metric data,
           s\<lparr>effects := effects s @ calls metric data (take (Suc k) callbacks)\<rparr>))"
proof -
  from assms have "dataCallbacks s = callbacks"
    using subscribe_all [of s0 callbacks] by simp
  then show ?thesis
    by (simp add: notifyCallbacks_def notifyLoop_eq split: option.splits)
qed

theorem notify_until_first_throw_witness:
  "notifyCallbacks (foldl subscribeToProviderUpdates emptyManager [quietListener, throwingListener])
     sleep sleepSample =
     (Some (PlainError ''listener failed''),
      (foldl subscribeToProviderUpdates emptyManager [quietListener, throwingListener])
        \<lparr>effects := [CallbackCalled 2 sleep sleepSample, CallbackCalled 1 sleep sleepSample]\<rparr>)"
proof -
  have 1: "dataCallbacks emptyManager = []" by (simp add: emptyManager_def)
  have 2: "distinct (map callbackRef [quietListener, throwingListener])"
    by (simp add: quietListener_def throwingListener_def)
  have 3: "effects (foldl subscribeToProviderUpdates emptyManager [quietListener, throwingListener]) = []"
    by (simp add: subscribeToProviderUpdates_def emptyManager_def)
  from notify_until_first_throw [OF 1 2 refl, of sleep sleepSample] 3 show ?thesis
    by (simp add: calls_def quietListener_def throwingListener_def)
qed

text \<open>
  Without the amendment the statement fails: with a throwing listener registered before a quiet one, the
  notification ends with the exception after one call, and the quiet listener is not called.
\<close>

theorem notify_all_listeners_counterexample:
  "notifyCallbacks (foldl subscribeToProviderUpdates emptyManager [throwingListener, quietListener])
     sleep sleepSample =
     (Some (PlainError ''listener failed''),
      (foldl subscribeToProviderUpdates emptyManager [throwingListener, quietListener])
        \<lparr>effects := [CallbackCalled 1 sleep sleepSample]\<rparr>) \<and>
   CallbackCalled (callbackRef quietListener) sleep sleepSample \<notin>
     set [CallbackCalled 1 sleep sleepSample]"
  by (simp add: notifyCallbacks_def subscribeToProviderUpdates_def emptyManager_def
      quietListener_def throwingListener_def)

section \<open>Disabling a provider\<close>

text \<open>
  C6 (amended). If the stored realtime cleanup function of the id throws, disabling raises
  (what was thrown if it is a typed error, CLEANUP_ERROR otherwise) and stops there: the
  manager's maps are unchanged, so the polling timers of the id are still running, and
  \<^verbatim>\<open>cleanUp()\<close> is not called. For a registered provider without a realtime subscription
  whose \<^verbatim>\<open>cleanUp()\<close> returns, disabling raises nothing, clears and removes exactly the timers
  whose key starts with the id and a dash, and then calls \<^verbatim>\<open>cleanUp()\<close> once.
\<close>

theorem disableProvider_teardown:
  "(map_of (providerSubscriptions s) providerId = Some (Some failure) \<longrightarrow>
      disableProvider s providerId =
        (Inl (if isTrackleError failure then failure
              else HealthDataError CLEANUP_ERROR (''Failed to clean up provider '' @ providerId)),
         s\<lparr>effects := effects s @ [CleanupFnCalled providerId]\<rparr>)) \<and>
   (map_of (providerSubscriptions s) providerId = None \<and>
    map_of (providers s) providerId = Some provider \<and> cleanUp provider = None \<longrightarrow>
      fst (disableProvider s providerId) = Inr () \<and>
      pollingIntervals (snd (disableProvider s providerId)) =
        filter (\<lambda>(key, interval). \<not> prefix (providerId @ ''-'') key) (pollingIntervals s) \<and>
      effects (snd (disableProvider s providerId)) =
        effects s @
        map (\<lambda>(key, interval). IntervalCleared interval)
          (filter (\<lambda>(key, interval). prefix (providerId @ ''-'') key) (pollingIntervals s)) @
        [ProviderCleanUpCalled providerId])"
  by (simp add: disableProvider_def stopPollingForProvider_def Let_def)

theorem disableProvider_teardown_witness:
  "disableProvider streamingManager ''apple-health'' =
     (Inl (HealthDataError CLEANUP_ERROR ''Failed to clean up provider apple-health''),
      streamingManager\<lparr>effects := [CleanupFnCalled ''apple-health'']\<rparr>) \<and>
   fst (disableProvider pollingManager ''apple-health'') = Inr () \<and>
   pollingIntervals (snd (disableProvider pollingManager ''apple-health'')) = [] \<and>
   effects (snd (disableProvider pollingManager ''apple-health'')) =
     [IntervalCleared 7, ProviderCleanUpCalled ''apple-health'']"
proof -
  have 1: "map_of (providerSubscriptions streamingManager) ''apple-health'' =
      Some (Some (PlainError ''unsubscribe failed''))"
    by (simp add: streamingManager_def)
  have 2: "map_of (providerSubscriptions pollingManager) ''apple-health'' = None \<and>
      map_of (providers pollingManager) ''apple-health'' = Some appleHealth \<and>
      cleanUp appleHealth = None"
    by (simp add: pollingManager_def streamingManager_def appleHealth_def)
  have 3: "effects streamingManager = []" "effects pollingManager = []"
    "pollingIntervals pollingManager = [(''apple-health-sleep'', 7)]"
    by (simp_all add: pollingManager_def streamingManager_def)
  from disableProvider_teardown [where s = streamingManager and providerId = "''apple-health''"
      and failure = "PlainError ''unsubscribe failed''"] 1
  have a: "disableProvider streamingManager ''apple-health'' =
     (Inl (HealthDataError CLEANUP_ERROR ''Failed to clean up provider apple-health''),
      streamingManager\<lparr>effects := [CleanupFnCalled ''apple-health'']\<rparr>)"
    by (simp add: 3)
  from disableProvider_teardown [where s = pollingManager and providerId = "''apple-health''"
      and provider = appleHealth] 2
  have b: "fst (disableProvider pollingManager ''apple-health'') = Inr () \<and>
   pollingIntervals (snd (disableProvider pollingManager ''apple-health'')) = [] \<and>
   effects (snd (disableProvider pollingManager ''apple-health'')) =
     [IntervalCleared 7, ProviderCleanUpCalled ''apple-health'']"
    by (simp add: 3)
  from a b show ?thesis by simp
qed

text \<open>
  Without the amendment the statement fails: when the cleanup function throws, CLEANUP_ERROR is raised, the
  timer of the provider is still in the map and was not cleared, and \<^verbatim>\<open>cleanUp()\<close> was not
  called (the only effect is the call of the cleanup function).
\<close>

theorem disableProvider_best_effort_counterexample:
  "fst (disableProvider streamingManager ''apple-health'') =
     Inl (HealthDataError CLEANUP_ERROR ''Failed to clean up provider apple-health'') \<and>
   pollingIntervals (snd (disableProvider streamingManager ''apple-health'')) =
     [(''apple-health-sleep'', 7)] \<and>
   effects (snd (disableProvider streamingManager ''apple-health'')) =
     [CleanupFnCalled ''apple-health'']"
  by (simp add: disableProvider_def streamingManager_def)

section \<open>Registering a provider\<close>

text \<open>
  C7 (amended). Registering a provider that reports itself unavailable returns without
  error and leaves the manager unchanged. Registering an available provider whose id is
  already registered throws a plain \<^verbatim>\<open>Error\<close> ("Provider with id ... is already registered")
  and leaves the manager unchanged, so the existing entry is not replaced.
\<close>

theorem registerProvider_checks:
  "(isAvailable provider = Inr False \<longrightarrow> registerProvider s provider now = (Inr (), s)) \<and>
   (isAvailable provider = Inr True \<and> map_of (providers s) (id' provider) = Some registered \<longrightarrow>
      registerProvider s provider now =
        (Inl (PlainError (''Provider with id '' @ id' provider @ '' is already registered'')), s))"
  by (simp add: registerProvider_def)

theorem registerProvider_checks_witness:
  "registerProvider emptyManager (appleHealth\<lparr>isAvailable := Inr False\<rparr>) 0 =
     (Inr (), emptyManager) \<and>
   registerProvider streamingManager (appleHealth\<lparr>priority := 0\<rparr>) 0 =
     (Inl (PlainError ''Provider with id apple-health is already registered''), streamingManager)"
proof -
  have 1: "isAvailable (appleHealth\<lparr>isAvailable := Inr False\<rparr>) = Inr False" by simp
  have 2: "isAvailable (appleHealth\<lparr>priority := 0\<rparr>) = Inr True \<and>
      map_of (providers streamingManager) (id' (appleHealth\<lparr>priority := 0\<rparr>)) = Some appleHealth"
    by (simp add: appleHealth_def streamingManager_def)
  from registerProvider_checks [where provider = "appleHealth\<lparr>isAvailable := Inr False\<rparr>"
      and s = emptyManager and now = 0] 1
    registerProvider_checks [where provider = "appleHealth\<lparr>priority := 0\<rparr>"
      and s = streamingManager and registered = appleHealth and now = 0] 2
  show ?thesis by (simp add: appleHealth_def)
qed

text \<open>
  Without the amendment the statement fails: what a duplicate registration throws is not a typed domain
  error (the error kinds have no DUPLICATE_PROVIDER among them).
\<close>

theorem registerProvider_duplicate_counterexample:
  "fst (registerProvider streamingManager appleHealth 0) =
     Inl (PlainError ''Provider with id apple-health is already registered'') \<and>
   \<not> isTrackleError (PlainError ''Provider with id apple-health is already registered'')"
  by (simp add: registerProvider_def streamingManager_def appleHealth_def)

section \<open>Empty samples\<close>

text \<open>
  A polling tick that fetched an empty sample notifies nobody, and a consolidation stores no
  sample without points.
\<close>

lemma pollData_skips_empty_sample:
  "getData provider metric startDate now = Inr data \<Longrightarrow> value' data = [] \<Longrightarrow>
     pollData s provider metric startDate now = (Inr (), s)"
  by (simp add: pollData_def hasValidData_def)

lemma consolidateLoop_no_empty_sample:
  "consolidateLoop s metrics startDate endDate stamp result = Inr result' \<Longrightarrow>
   result' metric = Some sample \<Longrightarrow> result metric = Some sample \<or> value' sample \<noteq> []"
proof (induction metrics arbitrary: result)
  case Nil
  then show ?case by simp
next
  case (Cons m metrics)
  from Cons.prems(1) obtain mergedDataPoints where
    ok: "consolidateMetric s m startDate endDate = Inr mergedDataPoints"
    by (cases "consolidateMetric s m startDate endDate") simp_all
  let ?next = "if mergedDataPoints \<noteq> []
     then result(m \<mapsto> \<lparr>value' = mergedDataPoints, type' = category, timestamp = stamp\<rparr>)
     else result"
  from Cons.prems(1) ok have "consolidateLoop s metrics startDate endDate stamp ?next = Inr result'"
    by simp
  from Cons.IH [OF this Cons.prems(2)] show ?case
    by (auto split: if_splits)
qed

text \<open>
  C9. The realtime path does not apply the rule: the callback the manager hands to
  \<^verbatim>\<open>onData\<close> forwards whatever the provider pushes, so a sample without points reaches the
  registered listener.
\<close>

theorem realtime_push_forwards_empty_sample:
  "value' emptySample = [] \<and>
   providerStreamCallback (subscribeToProviderUpdates emptyManager quietListener) sleep emptySample =
     (None,
      (subscribeToProviderUpdates emptyManager quietListener)
        \<lparr>effects := [CallbackCalled 2 sleep emptySample]\<rparr>)"
  by (simp add: providerStreamCallback_def notifyCallbacks_def subscribeToProviderUpdates_def
      emptyManager_def quietListener_def emptySample_def)

section \<open>A failing metric in a bulk consolidation\<close>

lemma consolidateLoop_fails:
  assumes "metric \<in> set metrics" "consolidateMetric s metric startDate endDate = Inl failure"
  shows "\<exists>e. consolidateLoop s metrics startDate endDate stamp result = Inl e"
  using assms(1)
proof (induction metrics arbitrary: result)
  case Nil
  then show ?case by simp
next
  case (Cons m metrics)
  show ?case
  proof (cases "consolidateMetric s m startDate endDate")
    case (Inl e)
    then show ?thesis by simp
  next
    case (Inr mergedDataPoints)
    with assms(2) have "m \<noteq> metric" by auto
    with Cons.prems have "metric \<in> set metrics" by simp
    from Cons.IH [OF this] Inr show ?thesis by simp
  qed
qed

text \<open>
  C8 (amended). If the consolidation of one of the requested metrics fails, the whole
  consolidation fails, and \<^verbatim>\<open>syncHealthData\<close> returns the error's message with an empty
  \<open>healthData\<close> and the old \<open>lastSync\<close>: no metric of the call is returned, those
  consolidated before the failure included.
\<close>

theorem consolidation_failure_aborts_sync:
  assumes "metric \<in> set metrics" "consolidateMetric s metric lastSync' now = Inl failure"
  shows "\<exists>e. consolidateHealthMetrics s metrics lastSync' now stamp = Inl e \<and>
           syncHealthData s metrics lastSync' now stamp =
             \<lparr>error = Some (message e), isLoading = False, healthData = Map.empty,
              lastSync = lastSync'\<rparr>"
proof -
  from consolidateLoop_fails [OF assms, of stamp Map.empty]
  obtain e where "consolidateHealthMetrics s metrics lastSync' now stamp = Inl e"
    by (auto simp: consolidateHealthMetrics_def)
  then show ?thesis by (simp add: syncHealthData_def)
qed

lemma flaky_providers:
  "getProvidersForMetric flakyManager sleep = [flakyProvider]"
  "getProvidersForMetric flakyManager illness = [flakyProvider]"
  by (simp_all add: getProvidersForMetric_def flakyManager_def flakyProvider_def)

lemma flaky_illness:
  "consolidateMetric flakyManager illness 0 10 =
     Inl (HealthDataError DATA_FETCH_ERROR ''Failed to fetch health data'')"
  by (simp add: consolidateMetric_def flaky_providers) (simp add: flakyProvider_def)

lemma flaky_sleep:
  "consolidateMetric flakyManager sleep 0 10 =
     Inr [\<lparr>start = 0, end' = 14400000, source = ''A'', payload = SleepPayload []\<rparr>]"
  by (simp add: consolidateMetric_def flaky_providers)
     (simp add: flakyProvider_def sleepSample_def hasValidData_def mergeDataPoints_def mergePoint_def)

theorem consolidation_failure_aborts_sync_witness:
  "\<exists>e. consolidateHealthMetrics flakyManager [sleep, illness] 0 10 11 = Inl e \<and>
       syncHealthData flakyManager [sleep, illness] 0 10 11 =
         \<lparr>error = Some (message e), isLoading = False, healthData = Map.empty, lastSync = 0\<rparr>"
proof -
  have 1: "illness \<in> set [sleep, illness]" by simp
  from consolidation_failure_aborts_sync [OF 1 flaky_illness] show ?thesis .
qed

text \<open>
  Without the amendment the statement fails: sleep consolidates on its own, but a call for sleep and illness
  fails with DATA_FETCH_ERROR when the illness fetch rejects, and the sync result holds no
  sleep sample.
\<close>

theorem consolidation_continues_counterexample:
  "consolidateMetric flakyManager sleep 0 10 =
     Inr [\<lparr>start = 0, end' = 14400000, source = ''A'', payload = SleepPayload []\<rparr>] \<and>
   consolidateHealthMetrics flakyManager [sleep, illness] 0 10 11 =
     Inl (HealthDataError DATA_FETCH_ERROR ''Failed to fetch health data'') \<and>
   healthData (syncHealthData flakyManager [sleep, illness] 0 10 11) sleep = None \<and>
   error (syncHealthData flakyManager [sleep, illness] 0 10 11) =
     Some ''Failed to fetch health data''"
  by (simp add: syncHealthData_def consolidateHealthMetrics_def flaky_sleep flaky_illness)

section \<open>The priority lookups of the incremental and the bulk path\<close>

lemma dom_fold_priorities:
  "dom (fold (\<lambda>provider priorities. writeProperty priorities (id' provider) (priority provider))
          ps m) =
     dom m \<union> (id' ` set ps - {''__proto__''})"
  by (induction ps arbitrary: m) (auto simp: writeProperty_def)

lemma dom_priorityLookup: "dom (priorityLookup ps) = id' ` set ps - {''__proto__''}"
  by (simp add: priorityLookup_def dom_fold_priorities)

lemma readProperty_proto: "readProperty prio ''__proto__'' \<noteq> Undefined"
  by (simp add: readProperty_def objectPrototype_def split: option.splits)

lemma readProperty_priorityLookup:
  "key \<in> id' ` set ps \<Longrightarrow> readProperty (priorityLookup ps) key \<noteq> Undefined"
proof (cases "key = ''__proto__''")
  case True
  then show ?thesis by (simp only: readProperty_proto not_False_eq_True)
next
  case False
  assume "key \<in> id' ` set ps"
  with False have "key \<in> dom (priorityLookup ps)" by (simp add: dom_priorityLookup)
  then show ?thesis by (rule readProperty_dom)
qed

lemma collectDataPoints_sources:
  "collectDataPoints ps metric startDate endDate acc = Inr allDataPoints \<Longrightarrow>
     \<forall>p\<in>set allDataPoints. p \<in> set acc \<or> source p \<in> id' ` set ps"
proof (induction ps arbitrary: acc)
  case Nil
  then show ?case by simp
next
  case (Cons provider rest)
  from Cons.prems obtain data where d: "getData provider metric startDate endDate = Inr data"
    by (cases "getData provider metric startDate endDate") simp_all
  let ?acc = "if hasValidData metric data
     then acc @ map (\<lambda>point. point\<lparr>source := id' provider\<rparr>) (value' data) else acc"
  from Cons.prems d have "collectDataPoints rest metric startDate endDate ?acc = Inr allDataPoints"
    by simp
  from Cons.IH [OF this] show ?case by (auto split: if_splits)
qed

lemma mergeDataPoints_answered:
  assumes "\<forall>p\<in>set dataPoints. readProperty prio (source p) \<noteq> Undefined"
  shows "\<exists>out. mergeDataPoints dataPoints prio = Inr out"
proof (cases "dataPoints = []")
  case True
  then show ?thesis by (simp add: mergeDataPoints_def)
next
  case False
  from assms have "\<forall>p\<in>set (sort_key start dataPoints). readProperty prio (source p) \<noteq> Undefined"
    by simp
  from mergeLoop_answered [OF this, of "[]"] False show ?thesis
    by (simp add: mergeDataPoints_def)
qed

lemma consolidateMetric_merge_succeeds:
  assumes "collectDataPoints (getProvidersForMetric s metric) metric startDate endDate [] =
             Inr allDataPoints"
  shows "\<exists>merged. consolidateMetric s metric startDate endDate = Inr merged"
proof -
  have "\<forall>p\<in>set (sort_key start allDataPoints).
          readProperty (priorityLookup (getProvidersForMetric s metric)) (source p) \<noteq> Undefined"
  proof
    fix p
    assume "p \<in> set (sort_key start allDataPoints)"
    with collectDataPoints_sources [OF assms]
    have "source p \<in> id' ` set (getProvidersForMetric s metric)" by simp
    then show "readProperty (priorityLookup (getProvidersForMetric s metric)) (source p) \<noteq>
        Undefined"
      by (rule readProperty_priorityLookup)
  qed
  from mergeDataPoints_answered [OF this] assms show ?thesis
    by (simp add: consolidateMetric_def)
qed

text \<open>
  C10 (amended). The lookup of the incremental path has an own entry for the id of every
  registered provider; the lookup of the bulk path for the ids of the registered providers
  that support the metric and are enabled (in both, an id \<^verbatim>\<open>__proto__\<close> gets no entry of its
  own and reads the inherited member). For an existing and a new sample whose points all
  carry the id of a registered provider, \<^verbatim>\<open>mergeMetricData\<close> returns a sample (it never raises
  PRIORITY_ERROR), whether or not those providers are enabled. In the bulk path every point
  is given the id of the provider it was fetched from, so once all fetches of a metric have
  resolved, its merge returns a list as well.
\<close>

theorem incremental_and_bulk_lookups:
  "dom (getProviderPriorities s) = id' ` set (getAllProviders s) - {''__proto__''} \<and>
   dom (priorityLookup (getProvidersForMetric s metric)) =
     {id' provider | provider. provider \<in> set (getAllProviders s) \<and>
        metric \<in> set (getSupportedMetrics provider) \<and> id' provider \<in> set (enabledProviders s)}
       - {''__proto__''} \<and>
   ((\<forall>p\<in>set (value' existing @ value' newData). source p \<in> id' ` set (getAllProviders s)) \<longrightarrow>
      (\<exists>merged. mergeMetricData s (Some existing) newData now = Inr merged)) \<and>
   (collectDataPoints (getProvidersForMetric s metric) metric startDate endDate [] =
      Inr allDataPoints \<longrightarrow>
      (\<exists>merged. consolidateMetric s metric startDate endDate = Inr merged))"
proof (intro conjI impI)
  show "dom (getProviderPriorities s) = id' ` set (getAllProviders s) - {''__proto__''}"
    by (simp add: getProviderPriorities_def dom_priorityLookup)
  show "dom (priorityLookup (getProvidersForMetric s metric)) =
     {id' provider | provider. provider \<in> set (getAllProviders s) \<and>
        metric \<in> set (getSupportedMetrics provider) \<and> id' provider \<in> set (enabledProviders s)}
       - {''__proto__''}"
    by (auto simp: dom_priorityLookup getProvidersForMetric_def getAllProviders_def)
next
  assume reg: "\<forall>p\<in>set (value' existing @ value' newData).
      source p \<in> id' ` set (getAllProviders s)"
  have "\<forall>p\<in>set (value' existing @ value' newData).
      readProperty (getProviderPriorities s) (source p) \<noteq> Undefined"
  proof
    fix p
    assume "p \<in> set (value' existing @ value' newData)"
    with reg have "source p \<in> id' ` set (getAllProviders s)" by blast
    then show "readProperty (getProviderPriorities s) (source p) \<noteq> Undefined"
      unfolding getProviderPriorities_def by (rule readProperty_priorityLookup)
  qed
  from mergeDataPoints_answered [OF this]
  show "\<exists>merged. mergeMetricData s (Some existing) newData now = Inr merged"
    by (auto simp: mergeMetricData_def)
next
  assume "collectDataPoints (getProvidersForMetric s metric) metric startDate endDate [] =
      Inr allDataPoints"
  then show "\<exists>merged. consolidateMetric s metric startDate endDate = Inr merged"
    by (rule consolidateMetric_merge_succeeds)
qed

lemma two_providers:
  "getAllProviders twoProviderManager = [enabledA, disabledB]"
  "getProvidersForMetric twoProviderManager sleep = [enabledA]"
  by (simp_all add: getAllProviders_def getProvidersForMetric_def twoProviderManager_def
      enabledA_def disabledB_def)

lemma two_providers_collect:
  "collectDataPoints [enabledA] sleep 0 20 [] =
     Inr [\<lparr>start = 0, end' = 10, source = ''A'', payload = SleepPayload []\<rparr>,
          \<lparr>start = 5, end' = 15, source = ''A'', payload = SleepPayload []\<rparr>]"
  by (simp add: enabledA_def pointsOfB_def hasValidData_def)

theorem incremental_and_bulk_lookups_witness:
  "dom (getProviderPriorities twoProviderManager) = {''A'', ''B''} \<and>
   (\<exists>merged. mergeMetricData twoProviderManager (Some pointsOfB) pointsOfB 20 = Inr merged) \<and>
   (\<exists>merged. consolidateMetric twoProviderManager sleep 0 20 = Inr merged)"
proof -
  have 1: "\<forall>p\<in>set (value' pointsOfB @ value' pointsOfB).
             source p \<in> id' ` set (getAllProviders twoProviderManager)"
    by (simp add: two_providers) (simp add: pointsOfB_def enabledA_def disabledB_def)
  have 2: "collectDataPoints (getProvidersForMetric twoProviderManager sleep) sleep 0 20 [] =
      Inr [\<lparr>start = 0, end' = 10, source = ''A'', payload = SleepPayload []\<rparr>,
           \<lparr>start = 5, end' = 15, source = ''A'', payload = SleepPayload []\<rparr>]"
    by (simp only: two_providers two_providers_collect)
  have 3: "id' ` set (getAllProviders twoProviderManager) = {''A'', ''B''}"
    by (simp add: two_providers) (simp add: enabledA_def disabledB_def)
  from incremental_and_bulk_lookups [where s = twoProviderManager and existing = pointsOfB
      and newData = pointsOfB and metric = sleep and startDate = 0 and endDate = 20 and now = 20
      and allDataPoints = "[\<lparr>start = 0, end' = 10, source = ''A'', payload = SleepPayload []\<rparr>,
           \<lparr>start = 5, end' = 15, source = ''A'', payload = SleepPayload []\<rparr>]"]
    1 2 3
  show ?thesis by simp
qed

text \<open>
  Without the amendment the statement fails in its last part. Two overlapping points that carry B's id would
  raise PRIORITY_ERROR if they were merged under the bulk lookup, but the bulk path never
  merges them as they are: fetched from A they are merged as points of A. No state, metric
  and window make the merge of the bulk path raise PRIORITY_ERROR.
\<close>

theorem bulk_merge_priority_error_counterexample:
  "mergeDataPoints (value' pointsOfB) (priorityLookup (getProvidersForMetric twoProviderManager sleep)) =
     Inl (HealthDataError PRIORITY_ERROR ''Provider priority not found'') \<and>
   consolidateMetric twoProviderManager sleep 0 20 =
     Inr [\<lparr>start = 0, end' = 10, source = ''A'', payload = SleepPayload []\<rparr>] \<and>
   \<not> (\<exists>(s :: Payload HealthProviderManager) metric startDate endDate allDataPoints text.
        collectDataPoints (getProvidersForMetric s metric) metric startDate endDate [] =
          Inr allDataPoints \<and>
        consolidateMetric s metric startDate endDate = Inl (HealthDataError PRIORITY_ERROR text))"
proof (intro conjI)
  show "mergeDataPoints (value' pointsOfB)
      (priorityLookup (getProvidersForMetric twoProviderManager sleep)) =
     Inl (HealthDataError PRIORITY_ERROR ''Provider priority not found'')"
    by (simp add: two_providers)
       (simp add: pointsOfB_def priorityLookup_def writeProperty_def enabledA_def
         mergeDataPoints_def mergePoint_def overlaps_def readProperty_def objectPrototype_def)
  show "consolidateMetric twoProviderManager sleep 0 20 =
     Inr [\<lparr>start = 0, end' = 10, source = ''A'', payload = SleepPayload []\<rparr>]"
    by (simp only: consolidateMetric_def Let_def two_providers two_providers_collect)
       (simp add: priorityLookup_def writeProperty_def enabledA_def mergeDataPoints_def
         mergePoint_def overlaps_def readProperty_def)
  show "\<not> (\<exists>(s :: Payload HealthProviderManager) metric startDate endDate allDataPoints text.
        collectDataPoints (getProvidersForMetric s metric) metric startDate endDate [] =
          Inr allDataPoints \<and>
        consolidateMetric s metric startDate endDate = Inl (HealthDataError PRIORITY_ERROR text))"
    using consolidateMetric_merge_succeeds by fastforce
qed

end
